theory Spec2Isabelle
  imports Complex_Main "HOL-Library.Word" "HOL-Library.Log_Nat" "HOL-Library.Sublist"
begin

section \<open>The tracking script: data model\<close>

text \<open>
  The embedded script is one closure over a handful of mutable variables
  (\<open>CONFIG\<close>, \<open>eventQueue\<close>, \<open>lastMouseSample\<close>, \<open>session\<close>,
  \<open>lastScrollDepth\<close>, \<open>scrollTimeout\<close>, the engagement counters) plus the
  page-wide flag \<open>window._waInitialized\<close> and the cookie store. Every
  function of the script is a state transformer on the record \<open>tracker\<close>
  below. What the script reads from the browser at call time (clock,
  location, viewport, navigator) is the record \<open>env\<close>; what it hands to the
  browser (console lines, network transmissions, listeners, interval timers)
  is recorded in the state. An exception that leaves a function is a result
  of its own (\<open>Threw\<close>) that carries the state reached when it was thrown.
\<close>

subsection \<open>JavaScript values and truthiness\<close>

text \<open>
  The values the host page can pass into the script: as the site id
  (\<open>setSiteId\<close>; the script's own paths store \<open>null\<close> or a string), as the
  data of a custom event (\<open>track\<close>) and as user id and traits
  (\<open>identify\<close>). The script inspects their truthiness and hands them to
  \<open>JSON.stringify\<close>, which throws a \<open>TypeError\<close> on a \<open>BigInt\<close> and on an
  object that contains a cycle. \<open>JObject\<close> is any other object.
\<close>

datatype jsval =
    JUndefined
  | JNull
  | JBool bool
  | JNum int
  | JNaN
  | JStr string
  | JBigInt int
  | JObject
  | JCircular

fun truthy :: "jsval \<Rightarrow> bool" where
  "truthy JUndefined = False"
| "truthy JNull = False"
| "truthy (JBool b) = b"
| "truthy (JNum n) = (n \<noteq> 0)"
| "truthy JNaN = False"
| "truthy (JStr s) = (s \<noteq> [])"
| "truthy (JBigInt n) = (n \<noteq> 0)"
| "truthy JObject = True"
| "truthy JCircular = True"

text \<open>Whether \<open>JSON.stringify\<close> returns on a value (it throws otherwise).\<close>

fun serialisable :: "jsval \<Rightarrow> bool" where
  "serialisable (JBigInt n) = False"
| "serialisable JCircular = False"
| "serialisable v = True"

datatype error = TypeError

subsection \<open>Configuration\<close>

record config =
  siteId :: jsval
  cookieName :: string
  cookieExpiry :: int
  batchSize :: int
  flushInterval :: int
  endpoint :: string
  trackMouseMovement :: bool
  mouseSampleRate :: int
  debug :: bool

definition CONFIG0 :: config where
  "CONFIG0 = \<lparr> siteId = JNull, cookieName = ''wa_session'', cookieExpiry = 30,
     batchSize = 10, flushInterval = 5000,
     endpoint = ''https://api.publickeyboard.com/api/analytics'',
     trackMouseMovement = True, mouseSampleRate = 100, debug = False \<rparr>"

subsection \<open>Session\<close>

text \<open>
  Counters and timestamps are JavaScript numbers that hold integers; they
  are modelled as integers, and the one arithmetic step whose result depends
  on the number being a double, the increment of the page-view counter, is
  \<open>js_increment\<close> below. The field \<open>id\<close> of the source is \<open>id'\<close> here.
\<close>

record session =
  id' :: string
  visitorId :: string
  startTime :: int
  pageViews :: int
  isNew :: bool
  lastActivity :: "int option"
  userId :: jsval
  traits :: jsval

subsection \<open>Events\<close>

text \<open>
  JavaScript strings are sequences of UTF-16 code units; \<open>slice\<close> counts
  code units. Text taken from the page is therefore a list of 16-bit words.
  Strings the script itself builds (type tags, identifiers) are ASCII and
  are HOL strings.
\<close>

type_synonym jsstring = "16 word list"

record page_ctx =
  url :: string
  path :: string
  title :: string
  referrer :: string

record viewport_ctx =
  width :: int
  height :: int

text \<open>The source's \<open>position\<close> keys \<open>x\<close> and \<open>y\<close> are \<open>pos_x\<close> and \<open>pos_y\<close>.\<close>

record position =
  pos_x :: int
  pos_y :: int
  pageX :: int
  pageY :: int

text \<open>The source's \<open>element\<close> keys \<open>text\<close> and \<open>path\<close> are \<open>text'\<close> and \<open>path'\<close>.\<close>

record element_desc =
  tag :: string
  elem_id :: "string option"
  classes :: "string option"
  text' :: jsstring
  href :: "string option"
  path' :: string

datatype payload =
    NoData
  | PageViewData bool int
  | ClickData element_desc position
  | MouseMoveData position
  | ScrollData int rat
  | VisibilityData string bool
  | FormInteractionData string string "string option" "string option" "string option" string
  | ErrorData string string int int "jsstring option"
  | PageExitData int int int
  | CustomData jsval
  | IdentifyData jsval jsval

text \<open>
  The only parts of an event that come from the host page are the data of a
  custom event and the user id and traits of an identify event; everything
  else is strings and numbers.
\<close>

fun payload_serialisable :: "payload \<Rightarrow> bool" where
  "payload_serialisable (CustomData v) = serialisable v"
| "payload_serialisable (IdentifyData u t) = (serialisable u \<and> serialisable t)"
| "payload_serialisable d = True"

text \<open>
  An event. The source spreads the caller's fields over the object last;
  no caller passes a field named like one of the fixed ones (\<open>track\<close> nests
  the host page's data under \<open>custom\<close>), so the caller's fields are kept
  apart as \<open>data\<close>. The source's \<open>type\<close> is \<open>type'\<close> here.
\<close>

record event =
  type' :: string
  timestamp :: int
  sessionId :: string
  event_visitorId :: string
  page :: page_ctx
  viewport :: viewport_ctx
  data :: payload

subsection \<open>What the browser provides and receives\<close>

text \<open>
  What the browser passes to \<open>window.onerror\<close> for an exception that left a
  listener or timer callback: message, source, line, column and the stack of
  the error object.
\<close>

datatype error_report = ErrorReport string string int int "jsstring option"

record env =
  Date_now :: int
  location_href :: string
  location_pathname :: string
  document_title :: string
  document_referrer :: string
  innerWidth :: int
  innerHeight :: int
  userAgent :: string
  language :: string
  platform :: string
  screen_width :: int
  screen_height :: int
  has_sendBeacon :: bool
  document_hidden :: bool
  visibilityState :: string
  uncaught :: error_report

record meta_info =
  meta_userAgent :: string
  meta_language :: string
  meta_platform :: string
  screenResolution :: "int \<times> int"

record batch =
  events :: "event list"
  site_id :: jsval
  meta :: meta_info

text \<open>
  One transmission attempt: \<open>navigator.sendBeacon(url, blob)\<close> or
  \<open>fetch(url, {headers: {'X-Site-ID': ...}, body, keepalive})\<close>. The
  payload is recorded as the object handed to \<open>JSON.stringify\<close>; the
  screen resolution, a string \<open>WxH\<close> in the source, is kept as the pair.
  An entry of \<open>network\<close> is a call of \<open>sendBeacon\<close> or \<open>fetch\<close> that was
  really made.
\<close>

datatype transmission =
    Beacon string batch
  | Fetch string jsval batch

datatype console_line = Warn string | Log string

text \<open>
  Listeners are kept in registration order. \<open>addEventListener\<close> ignores a
  registration whose (type, callback, capture) is already present, which
  applies to the named functions; each run of \<open>init\<close> creates fresh closures
  for the two anonymous handlers, which are therefore always added.
\<close>

datatype handler =
    H_click
  | H_mousemove
  | H_scroll
  | H_focus
  | H_blur
  | H_change
  | H_visibility
  | H_beforeunload nat
  | H_hidden_flush nat

record tracker =
  CONFIG :: config
  eventQueue :: "event list"
  lastMouseSample :: int
  session :: session
  lastScrollDepth :: int
  scrollTimeout :: bool
  engagementTime :: int
  lastEngagementCheck :: int
  waInitialized :: bool
  domReadyListener :: bool
  listeners :: "handler list"
  window_onerror :: bool
  flushTimers :: nat
  cookies :: "string list"
  console :: "console_line list"
  network :: "transmission list"
  pushed :: "event list"

text \<open>
  \<open>cookies\<close> is the browser's cookie store for the page (see below);
  \<open>console\<close>, \<open>network\<close> and \<open>pushed\<close> are traces, not variables of the
  script: the console lines written, the transmissions made, and every event
  ever appended to \<open>eventQueue\<close>, in order.
\<close>

datatype result = Returned tracker | Threw error tracker

fun state_of :: "result \<Rightarrow> tracker" where
  "state_of (Returned st) = st"
| "state_of (Threw err st) = st"

fun threw :: "result \<Rightarrow> bool" where
  "threw (Returned st) = False"
| "threw (Threw err st) = True"

section \<open>Event creation, queueing and flushing\<close>

definition newEvent :: "tracker \<Rightarrow> env \<Rightarrow> string \<Rightarrow> payload \<Rightarrow> event" where
  "newEvent st e ty d =
     \<lparr> type' = ty, timestamp = Date_now e,
       sessionId = id' (session st), event_visitorId = visitorId (session st),
       page = \<lparr> url = location_href e, path = location_pathname e,
                title = document_title e, referrer = document_referrer e \<rparr>,
       viewport = \<lparr> width = innerWidth e, height = innerHeight e \<rparr>,
       data = d \<rparr>"

definition site_id_warning :: string where
  "site_id_warning = ''[Analytics] site_id not configured. Call WebAnalytics.setSiteId() or use data-site-id attribute.''"

text \<open>\<open>createEvent\<close>: \<open>None\<close> is the source's \<open>null\<close>; the state is returned because of the debug warning.\<close>

definition createEvent :: "tracker \<Rightarrow> env \<Rightarrow> string \<Rightarrow> payload \<Rightarrow> tracker \<times> event option" where
  "createEvent st e ty d =
     (if \<not> truthy (siteId (CONFIG st)) then
        ((if debug (CONFIG st)
          then st\<lparr>console := console st @ [Warn site_id_warning]\<rparr>
          else st), None)
      else (st, Some (newEvent st e ty d)))"

definition mk_batch :: "tracker \<Rightarrow> env \<Rightarrow> event list \<Rightarrow> batch" where
  "mk_batch st e evs =
     \<lparr> events = evs, site_id = siteId (CONFIG st),
       meta = \<lparr> meta_userAgent = userAgent e, meta_language = language e,
                meta_platform = platform e,
                screenResolution = (screen_width e, screen_height e) \<rparr> \<rparr>"

text \<open>
  \<open>JSON.stringify(payload)\<close> returns when the site id and the data of every
  event are serialisable and throws otherwise.
\<close>

definition batch_serialisable :: "batch \<Rightarrow> bool" where
  "batch_serialisable b \<longleftrightarrow>
     serialisable (site_id b) \<and> list_all (\<lambda>ev. payload_serialisable (data ev)) (events b)"

text \<open>
  \<open>flush\<close>. The queue is emptied before the payload is built. On either
  transport \<open>JSON.stringify(payload)\<close> is evaluated before the browser
  function is called, so when it throws nothing is transmitted and the
  events already taken off the queue are gone. The endpoint is taken to be
  a URL the browser accepts, so that the browser function itself returns.
\<close>

definition flush :: "tracker \<Rightarrow> env \<Rightarrow> result" where
  "flush st e =
     (if length (eventQueue st) = 0 \<or> \<not> truthy (siteId (CONFIG st)) then Returned st
      else
        let evs = eventQueue st;
            st1 = st\<lparr>eventQueue := []\<rparr>;
            b = mk_batch st1 e evs
        in if \<not> batch_serialisable b then Threw TypeError st1
           else if has_sendBeacon e
           then Returned (st1\<lparr>network := network st1 @ [Beacon (endpoint (CONFIG st1)) b]\<rparr>)
           else Returned (st1\<lparr>network := network st1 @
                  [Fetch (endpoint (CONFIG st1)) (siteId (CONFIG st1)) b]\<rparr>))"

definition trackEvent :: "tracker \<Rightarrow> env \<Rightarrow> string \<Rightarrow> payload \<Rightarrow> result" where
  "trackEvent st e ty d =
     (case createEvent st e ty d of
        (st1, None) \<Rightarrow> Returned st1
      | (st1, Some ev) \<Rightarrow>
          let st2 = st1\<lparr>eventQueue := eventQueue st1 @ [ev], pushed := pushed st1 @ [ev]\<rparr>;
              st3 = (if debug (CONFIG st2)
                     then st2\<lparr>console := console st2 @ [Log (''[Analytics] '' @ ty)]\<rparr>
                     else st2)
          in if int (length (eventQueue st3)) \<ge> batchSize (CONFIG st3)
             then flush st3 e else Returned st3)"

section \<open>Identity store\<close>

subsection \<open>Cookies\<close>

text \<open>
  \<open>encodeURIComponent(JSON.stringify(v))\<close> and
  \<open>JSON.parse(decodeURIComponent(raw))\<close> are browser functions; they are the
  parameters \<open>enc\<close> and \<open>dec\<close>, where \<open>dec raw = None\<close> stands for either
  call throwing. The values \<open>JSON.parse\<close> can return are \<open>json\<close>; objects
  are modelled in the shape the script itself writes, a session.
\<close>

datatype json =
    JsonNull
  | JsonBool bool
  | JsonNum int
  | JsonStr string
  | JsonSession session

fun json_truthy :: "json \<Rightarrow> bool" where
  "json_truthy JsonNull = False"
| "json_truthy (JsonBool b) = b"
| "json_truthy (JsonNum n) = (n \<noteq> 0)"
| "json_truthy (JsonStr s) = (s \<noteq> [])"
| "json_truthy (JsonSession s) = True"

text \<open>
  The cookie store of the page is the list of its cookies, each as the text
  \<open>name=value\<close> it contributes to \<open>document.cookie\<close>, in the order the
  browser lists them (path and domain are not modelled: one cookie per
  name). Reading \<open>document.cookie\<close> joins them with \<open>"; "\<close>.
\<close>

type_synonym cookie_jar = "string list"

fun document_cookie :: "cookie_jar \<Rightarrow> string" where
  "document_cookie [] = []"
| "document_cookie [c] = c"
| "document_cookie (c # cs) = c @ ''; '' @ document_cookie cs"

text \<open>The name of a cookie: the text before its first \<open>=\<close> (none: the empty name).\<close>

definition cookie_name :: "string \<Rightarrow> string" where
  "cookie_name c = (if CHR ''='' \<in> set c then takeWhile (\<lambda>x. x \<noteq> CHR ''='') c else [])"

text \<open>
  Assigning \<open>name=value;expires=...;path=/;SameSite=Lax\<close> to
  \<open>document.cookie\<close>: with an expiry in the future the cookie of that name
  takes the new value where it stands, or is added last; with any other
  expiry it is removed. The value is \<open>encodeURIComponent\<close>'s output, which
  holds no \<open>;\<close> and no white space, so the browser stores it as assigned.
\<close>

fun replace_cookie :: "string \<Rightarrow> string \<Rightarrow> cookie_jar \<Rightarrow> cookie_jar" where
  "replace_cookie name v [] = [name @ ''='' @ v]"
| "replace_cookie name v (c # cs) =
     (if cookie_name c = name then (name @ ''='' @ v) # cs
      else c # replace_cookie name v cs)"

text \<open>\<open>Cookie.set\<close>: the cookie expires \<open>days\<close> days from now.\<close>

definition Cookie_set :: "(json \<Rightarrow> string) \<Rightarrow> cookie_jar \<Rightarrow> string \<Rightarrow> json \<Rightarrow> int \<Rightarrow> cookie_jar" where
  "Cookie_set enc jar name v days =
     (if days > 0 then replace_cookie name (enc v) jar
      else filter (\<lambda>c. cookie_name c \<noteq> name) jar)"

text \<open>
  The pattern \<open>(^| )name=([^;]+)\<close> against a text. \<open>match_at\<close> is the part
  after the first group, tried at one position: the literal \<open>name=\<close> and
  then as many characters other than \<open>;\<close> as there are, at least one, which
  are the second group. \<open>search\<close> tries the start positions from the left,
  at each one first the alternative \<open>^\<close> (at the very start only) and then
  the alternative of a space. The cookie name holds no character that
  is special in a pattern.
\<close>

definition match_at :: "string \<Rightarrow> string \<Rightarrow> string option" where
  "match_at name s =
     (if take (length name + 1) s = name @ ''=''
      then (let v = takeWhile (\<lambda>x. x \<noteq> CHR '';'') (drop (length name + 1) s)
            in if v = [] then None else Some v)
      else None)"

fun search :: "string \<Rightarrow> bool \<Rightarrow> string \<Rightarrow> string option" where
  "search name at_start [] = None"
| "search name at_start (c # cs) =
     (case (if at_start then match_at name (c # cs) else None) of
        Some v \<Rightarrow> Some v
      | None \<Rightarrow>
          (case (if c = CHR '' '' then match_at name cs else None) of
             Some v \<Rightarrow> Some v
           | None \<Rightarrow> search name False cs))"

text \<open>
  \<open>Cookie.get\<close>: the second group of the leftmost match in
  \<open>document.cookie\<close>, decoded and parsed; a failed parse is caught and
  yields \<open>null\<close>, as does no match.
\<close>

definition Cookie_get :: "(string \<Rightarrow> json option) \<Rightarrow> cookie_jar \<Rightarrow> string \<Rightarrow> json" where
  "Cookie_get dec jar name =
     (case search name True (document_cookie jar) of
        None \<Rightarrow> JsonNull
      | Some raw \<Rightarrow> (case dec raw of None \<Rightarrow> JsonNull | Some v \<Rightarrow> v))"

subsection \<open>Identifiers\<close>

text \<open>
  \<open>generateId\<close> replaces every \<open>x\<close> and \<open>y\<close> of the template by a hex digit
  drawn from \<open>Math.random() * 16 | 0\<close>. The random source is a stream
  \<open>rnd\<close> of draws read from position \<open>k\<close>; a draw is reduced modulo 16.
\<close>

definition hex_digit :: "nat \<Rightarrow> char" where
  "hex_digit v = ''0123456789abcdef'' ! (v mod 16)"

fun fill_template :: "(nat \<Rightarrow> nat) \<Rightarrow> nat \<Rightarrow> string \<Rightarrow> string" where
  "fill_template rnd k [] = []"
| "fill_template rnd k (c # cs) =
     (if c = CHR ''x'' then hex_digit (rnd k mod 16) # fill_template rnd (Suc k) cs
      else if c = CHR ''y'' then
        hex_digit (or (and (rnd k mod 16) 3) 8) # fill_template rnd (Suc k) cs
      else c # fill_template rnd k cs)"

definition id_template :: string where
  "id_template = ''xxxxxxxx-xxxx-4xxx-yxxx-xxxxxxxxxxxx''"

definition generateId :: "(nat \<Rightarrow> nat) \<Rightarrow> nat \<Rightarrow> string" where
  "generateId rnd k = fill_template rnd k id_template"

text \<open>Each call consumes one draw per \<open>x\<close> or \<open>y\<close> of the template.\<close>

definition draws_per_id :: nat where
  "draws_per_id = length (filter (\<lambda>c. c = CHR ''x'' \<or> c = CHR ''y'') id_template)"

subsection \<open>Loading or creating the session\<close>

text \<open>
  \<open>n++\<close> on a number that holds an integer. The sum is exact while it has
  magnitude at most \<open>2 ^ 53\<close>. Beyond, the doubles are the even integers up
  to magnitude \<open>2 ^ 54\<close>, where \<open>n + 1\<close> lies halfway between two of them and
  goes to the one with the even significand, and still further apart
  after that, where \<open>n + 1\<close> is rounded back to \<open>n\<close>.
\<close>

definition js_increment :: "int \<Rightarrow> int" where
  "js_increment n =
     (if - (2 ^ 53) \<le> n \<and> n < 2 ^ 53 then n + 1
      else if - (2 ^ 54) \<le> n \<and> n < 2 ^ 54
      then (if even (\<bar>n\<bar> div 2) then n else n + 2)
      else n)"

text \<open>
  The script runs in strict mode: assigning \<open>session.isNew\<close> on a parsed value
  that is truthy but not an object (a number, a string, \<open>true\<close>) throws a
  \<open>TypeError\<close>. \<open>t_start\<close> and \<open>t_act\<close> are the two readings of \<open>Date.now()\<close>.
  \<open>Cookie.set\<close> serialises the session before it assigns the cookie, which
  throws when the user id or the traits cannot be serialised (nothing that
  \<open>JSON.parse\<close> returns is so, and a new session holds neither).
\<close>

definition persist_session ::
  "(json \<Rightarrow> string) \<Rightarrow> config \<Rightarrow> cookie_jar \<Rightarrow> int \<Rightarrow> session \<Rightarrow>
   error + session \<times> cookie_jar" where
  "persist_session enc cfg jar t_act s =
     (let s1 = s\<lparr>pageViews := js_increment (pageViews s)\<rparr>;
          s2 = s1\<lparr>lastActivity := Some t_act\<rparr>
      in if \<not> (serialisable (userId s2) \<and> serialisable (traits s2)) then Inl TypeError
         else Inr (s2, Cookie_set enc jar (cookieName cfg) (JsonSession s2) (cookieExpiry cfg)))"

definition getOrCreateSession ::
  "(json \<Rightarrow> string) \<Rightarrow> (string \<Rightarrow> json option) \<Rightarrow> config \<Rightarrow> cookie_jar \<Rightarrow>
   (nat \<Rightarrow> nat) \<Rightarrow> nat \<Rightarrow> int \<Rightarrow> int \<Rightarrow> error + session \<times> cookie_jar" where
  "getOrCreateSession enc dec cfg jar rnd k t_start t_act =
     (let v = Cookie_get dec jar (cookieName cfg) in
      if \<not> json_truthy v then
        persist_session enc cfg jar t_act
          \<lparr> id' = generateId rnd k,
            visitorId = generateId rnd (k + draws_per_id),
            startTime = t_start, pageViews = 0, isNew = True,
            lastActivity = None, userId = JUndefined, traits = JUndefined \<rparr>
      else
        (case v of
           JsonSession s \<Rightarrow> persist_session enc cfg jar t_act (s\<lparr>isNew := False\<rparr>)
         | _ \<Rightarrow> Inl TypeError))"

section \<open>Capture layer\<close>

subsection \<open>String helpers of the JavaScript library\<close>

definition lower_char :: "char \<Rightarrow> char" where
  "lower_char c =
     (let n = (of_char c :: nat) in if 65 \<le> n \<and> n \<le> 90 then char_of (n + 32) else c)"

text \<open>\<open>toLowerCase\<close> on the ASCII strings it is applied to (tag names).\<close>

definition toLowerCase :: "string \<Rightarrow> string" where
  "toLowerCase s = map lower_char s"

text \<open>
  The code units \<open>String.prototype.trim\<close> strips: the ECMAScript white space
  and line terminator code points.
\<close>

definition js_whitespace :: "16 word \<Rightarrow> bool" where
  "js_whitespace c \<longleftrightarrow>
     c \<in> set [0x0009, 0x000A, 0x000B, 0x000C, 0x000D, 0x0020, 0x00A0, 0x1680,
               0x2000, 0x2001, 0x2002, 0x2003, 0x2004, 0x2005, 0x2006, 0x2007,
               0x2008, 0x2009, 0x200A, 0x2028, 0x2029, 0x202F, 0x205F, 0x3000,
               0xFEFF]"

definition trim :: "jsstring \<Rightarrow> jsstring" where
  "trim s = rev (dropWhile js_whitespace (rev (dropWhile js_whitespace s)))"

text \<open>\<open>s.slice(0, n)\<close> for a non-negative literal \<open>n\<close>.\<close>

definition slice0 :: "nat \<Rightarrow> 'a list \<Rightarrow> 'a list" where
  "slice0 n s = take n s"

text \<open>\<open>s || null\<close> on a string.\<close>

definition or_null :: "string \<Rightarrow> string option" where
  "or_null s = (if s = [] then None else Some s)"

text \<open>\<open>a || b\<close> where \<open>None\<close> is \<open>undefined\<close>/\<open>null\<close> and the empty string is falsy too.\<close>

definition or_else :: "string option \<Rightarrow> string option \<Rightarrow> string option" where
  "or_else a b = (case a of Some s \<Rightarrow> if s = [] then b else Some s | None \<Rightarrow> b)"

subsection \<open>Double arithmetic\<close>

text \<open>
  The scroll handler divides and multiplies numbers that are not integers.
  A double is a rational; \<open>fl\<close> rounds a rational to the nearest double,
  halves to the even significand (53 bits; the range of exponents is not
  modelled, the values here being far from its ends). Each arithmetic
  operation of the source is the exact operation followed by \<open>fl\<close>.
\<close>

definition pow2 :: "int \<Rightarrow> rat" where
  "pow2 k = (if 0 \<le> k then 2 ^ nat k else 1 / 2 ^ nat (- k))"

text \<open>For \<open>x > 0\<close>, the \<open>e\<close> with \<open>2 ^ e \<le> x < 2 ^ (e + 1)\<close>.\<close>

definition binade :: "rat \<Rightarrow> int" where
  "binade x =
     (let (p, q) = quotient_of x; d = bitlen p - bitlen q
      in if pow2 d \<le> x then d else d - 1)"

definition round_half_even :: "rat \<Rightarrow> int" where
  "round_half_even q =
     (let f = \<lfloor>q\<rfloor>; r = q - of_int f
      in if r < 1 / 2 then f else if 1 / 2 < r then f + 1
         else if even f then f else f + 1)"

definition fl :: "rat \<Rightarrow> rat" where
  "fl x =
     (if x = 0 then 0
      else let u = pow2 (binade \<bar>x\<bar> - 52) in of_int (round_half_even (x / u)) * u)"

subsection \<open>Native events as the handlers read them\<close>

text \<open>
  The element a native event targets, by the properties the handlers read.
  \<open>elementPath\<close> is the value of \<open>getElementPath(target)\<close>, whose walk up the
  document tree is not part of this development.
\<close>

record dom_element =
  tagName :: string
  element_id :: string
  className :: string
  textContent :: "jsstring option"
  element_href :: "string option"
  closest_a_href :: "string option"
  element_type :: string
  element_name :: string
  elementPath :: string

record mouse_event =
  target :: dom_element
  clientX :: int
  clientY :: int
  e_pageX :: int
  e_pageY :: int

record scroll_metrics =
  pageYOffset :: rat
  docEl_scrollTop :: rat
  body_scrollHeight :: int
  docEl_scrollHeight :: int

subsection \<open>Handlers\<close>

definition trackPageView :: "tracker \<Rightarrow> env \<Rightarrow> result" where
  "trackPageView st e =
     trackEvent st e ''pageview''
       (PageViewData (isNew (session st)) (pageViews (session st)))"

definition event_position :: "mouse_event \<Rightarrow> position" where
  "event_position ev =
     \<lparr> pos_x = clientX ev, pos_y = clientY ev, pageX = e_pageX ev, pageY = e_pageY ev \<rparr>"

definition click_text :: "dom_element \<Rightarrow> jsstring" where
  "click_text t = trim (slice0 100 (case textContent t of Some s \<Rightarrow> s | None \<Rightarrow> []))"

definition trackClick :: "tracker \<Rightarrow> env \<Rightarrow> mouse_event \<Rightarrow> result" where
  "trackClick st e ev =
     (let t = target ev in
      trackEvent st e ''click''
        (ClickData
           \<lparr> tag = toLowerCase (tagName t),
             elem_id = or_null (element_id t),
             classes = or_null (className t),
             text' = click_text t,
             href = or_else (element_href t) (or_else (closest_a_href t) None),
             path' = elementPath t \<rparr>
           (event_position ev)))"

text \<open>\<open>now\<close> is the handler's own reading of \<open>Date.now()\<close>.\<close>

definition trackMouseMove :: "tracker \<Rightarrow> int \<Rightarrow> env \<Rightarrow> mouse_event \<Rightarrow> result" where
  "trackMouseMove st now e ev =
     (if now - lastMouseSample st < mouseSampleRate (CONFIG st) then Returned st
      else trackEvent (st\<lparr>lastMouseSample := now\<rparr>) e ''mousemove''
             (MouseMoveData (event_position ev)))"

text \<open>\<open>Math.round\<close>: the nearest integer, halves upwards.\<close>

definition Math_round :: "rat \<Rightarrow> int" where
  "Math_round q = \<lfloor>q + 1 / 2\<rfloor>"

definition scrollDepth_of :: "env \<Rightarrow> scroll_metrics \<Rightarrow> int" where
  "scrollDepth_of e m =
     (let scrollTop = (if pageYOffset m \<noteq> 0 then pageYOffset m else docEl_scrollTop m);
          docHeight = max (body_scrollHeight m) (docEl_scrollHeight m) - innerHeight e
      in if docHeight > 0
         then Math_round (fl (fl (scrollTop / of_int docHeight) * 100)) else 0)"

text \<open>
  \<open>trackScroll\<close> cancels the pending timer and starts a new one;
  \<open>scrollTimeout\<close> records that a timer is pending. \<open>scroll_settled\<close> is the
  timer's callback.
\<close>

definition trackScroll :: "tracker \<Rightarrow> tracker" where
  "trackScroll st = st\<lparr>scrollTimeout := True\<rparr>"

definition scroll_settled :: "tracker \<Rightarrow> env \<Rightarrow> scroll_metrics \<Rightarrow> result" where
  "scroll_settled st e m =
     (let scrollTop = (if pageYOffset m \<noteq> 0 then pageYOffset m else docEl_scrollTop m);
          scrollDepth = scrollDepth_of e m
      in if scrollDepth > lastScrollDepth st + 10
         then trackEvent (st\<lparr>lastScrollDepth := scrollDepth\<rparr>) e ''scroll''
                (ScrollData scrollDepth scrollTop)
         else Returned st)"

definition trackFormInteraction :: "tracker \<Rightarrow> env \<Rightarrow> string \<Rightarrow> dom_element \<Rightarrow> result" where
  "trackFormInteraction st e ety t =
     (if tagName t \<notin> set [''INPUT'', ''TEXTAREA'', ''SELECT''] then Returned st
      else trackEvent st e ''form_interaction''
             (FormInteractionData ety (toLowerCase (tagName t)) (or_null (element_type t))
                (or_null (element_name t)) (or_null (element_id t)) (elementPath t)))"

definition trackVisibility :: "tracker \<Rightarrow> env \<Rightarrow> result" where
  "trackVisibility st e =
     trackEvent st e ''visibility'' (VisibilityData (visibilityState e) (document_hidden e))"

definition trackError ::
  "tracker \<Rightarrow> env \<Rightarrow> string \<Rightarrow> string \<Rightarrow> int \<Rightarrow> int \<Rightarrow> jsstring option \<Rightarrow> result" where
  "trackError st e message source lineno colno stack =
     trackEvent st e ''error''
       (ErrorData message source lineno colno
          (case stack of
             None \<Rightarrow> None
           | Some s \<Rightarrow> if slice0 500 s = [] then None else Some (slice0 500 s)))"

text \<open>
  \<open>updateEngagement\<close>; \<open>isEngaged\<close> is never assigned after its
  initialisation to \<open>true\<close>. \<open>t1\<close> and \<open>t2\<close> are its two clock readings.
\<close>

definition updateEngagement :: "tracker \<Rightarrow> env \<Rightarrow> int \<Rightarrow> int \<Rightarrow> tracker" where
  "updateEngagement st e t1 t2 =
     (let st1 = (if True \<and> \<not> document_hidden e
                 then st\<lparr>engagementTime := engagementTime st + (t1 - lastEngagementCheck st)\<rparr>
                 else st)
      in st1\<lparr>lastEngagementCheck := t2\<rparr>)"

section \<open>Initialisation and the public control surface\<close>

definition add_listener :: "handler \<Rightarrow> handler list \<Rightarrow> handler list" where
  "add_listener h hs = (if h \<in> set hs then hs else hs @ [h])"

definition no_site_id_warning :: string where
  "no_site_id_warning = ''[Analytics] No site_id configured. Add data-site-id attribute to script tag or call WebAnalytics.setSiteId()''"

text \<open>
  \<open>init\<close>. The two closures it creates are numbered by the count of flush
  timers already installed, which makes each run's closures fresh. An
  exception out of \<open>trackPageView\<close> ends \<open>init\<close> before anything is attached.
\<close>

definition init :: "tracker \<Rightarrow> env \<Rightarrow> result" where
  "init st e =
     (if \<not> truthy (siteId (CONFIG st))
      then Returned (st\<lparr>console := console st @ [Warn no_site_id_warning]\<rparr>)
      else
        (case trackPageView st e of
           Threw err st1 \<Rightarrow> Threw err st1
         | Returned st1 \<Rightarrow>
             let l1 = add_listener H_click (listeners st1);
                 l2 = (if trackMouseMovement (CONFIG st1) then add_listener H_mousemove l1 else l1);
                 l3 = add_listener H_scroll l2;
                 l4 = add_listener H_focus l3;
                 l5 = add_listener H_blur l4;
                 l6 = add_listener H_change l5;
                 l7 = add_listener H_visibility l6;
                 n = flushTimers st1;
                 l8 = add_listener (H_beforeunload n) l7;
                 l9 = add_listener (H_hidden_flush n) l8;
                 st2 = st1\<lparr>listeners := l9, window_onerror := True, flushTimers := Suc n\<rparr>
             in if debug (CONFIG st2)
                then Returned (st2\<lparr>console := console st2 @ [Log ''[Analytics] Initialized'']\<rparr>)
                else Returned st2))"

subsection \<open>\<open>window.WebAnalytics\<close>\<close>

definition track :: "tracker \<Rightarrow> env \<Rightarrow> string \<Rightarrow> jsval \<Rightarrow> result" where
  "track st e eventName d = trackEvent st e (''custom:'' @ eventName) (CustomData d)"

text \<open>
  \<open>identify\<close>: the session object takes the user id and the traits, then
  \<open>Cookie.set\<close> serialises it, which throws on an unserialisable user id or
  traits before the cookie is written or any event is created.
\<close>

definition identify :: "(json \<Rightarrow> string) \<Rightarrow> tracker \<Rightarrow> env \<Rightarrow> jsval \<Rightarrow> jsval \<Rightarrow> result" where
  "identify enc st e uid tr =
     (let s = (session st)\<lparr>userId := uid, traits := tr\<rparr>;
          st1 = st\<lparr>session := s\<rparr>
      in if \<not> (serialisable uid \<and> serialisable tr) then Threw TypeError st1
         else trackEvent
                (st1\<lparr>cookies := Cookie_set enc (cookies st1) (cookieName (CONFIG st1))
                                    (JsonSession s) (cookieExpiry (CONFIG st1))\<rparr>)
                e ''identify'' (IdentifyData uid tr))"

definition getSession :: "tracker \<Rightarrow> session" where
  "getSession st = session st"

definition setEndpoint :: "tracker \<Rightarrow> string \<Rightarrow> tracker" where
  "setEndpoint st u = st\<lparr>CONFIG := (CONFIG st)\<lparr>endpoint := u\<rparr>\<rparr>"

definition setSiteId :: "tracker \<Rightarrow> env \<Rightarrow> jsval \<Rightarrow> result" where
  "setSiteId st e v =
     (let st1 = st\<lparr>CONFIG := (CONFIG st)\<lparr>siteId := v\<rparr>\<rparr>
      in if truthy v \<and> \<not> waInitialized st1
         then init (st1\<lparr>waInitialized := True\<rparr>) e
         else Returned st1)"

definition getSiteId :: "tracker \<Rightarrow> jsval" where
  "getSiteId st = siteId (CONFIG st)"

definition setDebug :: "tracker \<Rightarrow> bool \<Rightarrow> tracker" where
  "setDebug st b = st\<lparr>CONFIG := (CONFIG st)\<lparr>debug := b\<rparr>\<rparr>"

subsection \<open>Script load\<close>

text \<open>The attributes of the script's own tag, \<open>None\<close> where \<open>getAttribute\<close> gives \<open>null\<close>.\<close>

record script_tag =
  data_site_id :: "string option"
  data_endpoint :: "string option"
  data_debug :: "string option"

definition configure :: "script_tag option \<Rightarrow> config" where
  "configure tg =
     (case tg of
        None \<Rightarrow> CONFIG0
      | Some t \<Rightarrow>
          let c1 = (case data_site_id t of
                      Some s \<Rightarrow> if s \<noteq> [] then CONFIG0\<lparr>siteId := JStr s\<rparr> else CONFIG0
                    | None \<Rightarrow> CONFIG0);
              c2 = (case data_endpoint t of
                      Some u \<Rightarrow> if u \<noteq> [] then c1\<lparr>endpoint := u\<rparr> else c1
                    | None \<Rightarrow> c1)
          in if data_debug t = Some ''true'' then c2\<lparr>debug := True\<rparr> else c2)"

text \<open>
  The clock readings the top level of the script takes, in order: the two of
  \<open>getOrCreateSession\<close> and the initial \<open>lastEngagementCheck\<close>.
\<close>

record load_clock =
  t_start :: int
  t_act :: int
  t_eng :: int

text \<open>
  The body of the script, run once when it is loaded into a page whose
  \<open>window._waInitialized\<close> is still unset. \<open>loading\<close> is
  \<open>document.readyState === 'loading'\<close>. A \<open>TypeError\<close> out of
  \<open>getOrCreateSession\<close> ends the script before anything is installed. The
  call of \<open>init\<close> is the last statement: were it to throw, the script would
  end with what it had installed until then.
\<close>

definition script_load ::
  "(json \<Rightarrow> string) \<Rightarrow> (string \<Rightarrow> json option) \<Rightarrow> script_tag option \<Rightarrow> bool \<Rightarrow>
   cookie_jar \<Rightarrow> (nat \<Rightarrow> nat) \<Rightarrow> load_clock \<Rightarrow> env \<Rightarrow> error + tracker" where
  "script_load enc dec tg loading jar rnd ck e =
     (let cfg = configure tg in
      case getOrCreateSession enc dec cfg jar rnd 0 (t_start ck) (t_act ck) of
        Inl err \<Rightarrow> Inl err
      | Inr (s, jar') \<Rightarrow>
          let st = \<lparr> CONFIG = cfg, eventQueue = [], lastMouseSample = 0, session = s,
                     lastScrollDepth = 0, scrollTimeout = False, engagementTime = 0,
                     lastEngagementCheck = t_eng ck, waInitialized = False,
                     domReadyListener = False, listeners = [], window_onerror = False,
                     flushTimers = 0, cookies = jar', console = [], network = [],
                     pushed = [] \<rparr>
          in if loading then Inr (st\<lparr>domReadyListener := True\<rparr>)
             else if truthy (siteId (CONFIG st))
                  then Inr (state_of (init (st\<lparr>waInitialized := True\<rparr>) e))
                  else Inr st)"

text \<open>The listener the script registers for \<open>DOMContentLoaded\<close> when loaded early.\<close>

definition domContentLoaded :: "tracker \<Rightarrow> env \<Rightarrow> result" where
  "domContentLoaded st e =
     (if truthy (siteId (CONFIG st))
      then init (st\<lparr>waInitialized := True\<rparr>) e
      else Returned st)"

section \<open>The page as a sequence of signals\<close>

text \<open>
  After the script has loaded, everything that happens to the tracker is one
  of the signals below: a native event delivered to the listeners that are
  attached, a timer firing, or a call of the host page into
  \<open>window.WebAnalytics\<close>. Each signal carries what the handler reads from
  the browser while it runs.

  When a listener or a timer callback throws, the browser reports the
  exception at once: it calls \<open>window.onerror\<close>, which is \<open>trackError\<close> once
  \<open>init\<close> has run, and goes on with the next listener. An exception out of
  \<open>window.onerror\<close> itself is not reported again. An exception out of a
  call into \<open>window.WebAnalytics\<close> goes to the host page's code; if that
  leaves it uncaught, the browser's report is the signal \<open>ErrorEvent\<close>.
\<close>

definition report :: "env \<Rightarrow> result \<Rightarrow> tracker" where
  "report e r =
     (case r of
        Returned st \<Rightarrow> st
      | Threw err st \<Rightarrow>
          if window_onerror st
          then (case uncaught e of
                  ErrorReport message source lineno colno stack \<Rightarrow>
                    state_of (trackError st e message source lineno colno stack))
          else st)"

definition on_beforeunload :: "tracker \<Rightarrow> int \<Rightarrow> env \<Rightarrow> result" where
  "on_beforeunload st now e =
     (case trackEvent st e ''page_exit''
             (PageExitData (now - startTime (session st)) (engagementTime st)
                (lastScrollDepth st)) of
        Threw err st1 \<Rightarrow> Threw err st1
      | Returned st1 \<Rightarrow> flush st1 e)"

definition on_hidden_flush :: "tracker \<Rightarrow> env \<Rightarrow> result" where
  "on_hidden_flush st e = (if document_hidden e then flush st e else Returned st)"

fun dispatch_visibilitychange :: "handler list \<Rightarrow> tracker \<Rightarrow> env \<Rightarrow> tracker" where
  "dispatch_visibilitychange [] st e = st"
| "dispatch_visibilitychange (H_visibility # hs) st e =
     dispatch_visibilitychange hs (report e (trackVisibility st e)) e"
| "dispatch_visibilitychange (H_hidden_flush n # hs) st e =
     dispatch_visibilitychange hs (report e (on_hidden_flush st e)) e"
| "dispatch_visibilitychange (h # hs) st e = dispatch_visibilitychange hs st e"

fun dispatch_beforeunload :: "handler list \<Rightarrow> tracker \<Rightarrow> int \<Rightarrow> env \<Rightarrow> tracker" where
  "dispatch_beforeunload [] st now e = st"
| "dispatch_beforeunload (H_beforeunload n # hs) st now e =
     dispatch_beforeunload hs (report e (on_beforeunload st now e)) now e"
| "dispatch_beforeunload (h # hs) st now e = dispatch_beforeunload hs st now e"

datatype signal =
    DOMContentLoaded env
  | Click env mouse_event
  | MouseMove int env mouse_event
  | Scroll
  | ScrollTimer env scroll_metrics
  | Focus env dom_element
  | Blur env dom_element
  | Change env dom_element
  | VisibilityChange env
  | ErrorEvent env string string int int "jsstring option"
  | BeforeUnload int env
  | FlushTimer env
  | EngagementTimer env int int
  | Call_track env string jsval
  | Call_identify "json \<Rightarrow> string" env jsval jsval
  | Call_flush env
  | Call_setEndpoint string
  | Call_setSiteId env jsval
  | Call_setDebug bool

fun step :: "tracker \<Rightarrow> signal \<Rightarrow> tracker" where
  "step st (DOMContentLoaded e) =
     (if domReadyListener st then report e (domContentLoaded st e) else st)"
| "step st (Click e ev) =
     (if H_click \<in> set (listeners st) then report e (trackClick st e ev) else st)"
| "step st (MouseMove now e ev) =
     (if H_mousemove \<in> set (listeners st) then report e (trackMouseMove st now e ev) else st)"
| "step st Scroll =
     (if H_scroll \<in> set (listeners st) then trackScroll st else st)"
| "step st (ScrollTimer e m) =
     (if scrollTimeout st
      then report e (scroll_settled (st\<lparr>scrollTimeout := False\<rparr>) e m) else st)"
| "step st (Focus e t) =
     (if H_focus \<in> set (listeners st)
      then report e (trackFormInteraction st e ''focus'' t) else st)"
| "step st (Blur e t) =
     (if H_blur \<in> set (listeners st)
      then report e (trackFormInteraction st e ''blur'' t) else st)"
| "step st (Change e t) =
     (if H_change \<in> set (listeners st)
      then report e (trackFormInteraction st e ''change'' t) else st)"
| "step st (VisibilityChange e) = dispatch_visibilitychange (listeners st) st e"
| "step st (ErrorEvent e message source lineno colno stack) =
     (if window_onerror st
      then state_of (trackError st e message source lineno colno stack) else st)"
| "step st (BeforeUnload now e) = dispatch_beforeunload (listeners st) st now e"
| "step st (FlushTimer e) = (if flushTimers st > 0 then report e (flush st e) else st)"
| "step st (EngagementTimer e t1 t2) = updateEngagement st e t1 t2"
| "step st (Call_track e eventName d) = state_of (track st e eventName d)"
| "step st (Call_identify enc e uid tr) = state_of (identify enc st e uid tr)"
| "step st (Call_flush e) = state_of (flush st e)"
| "step st (Call_setEndpoint u) = setEndpoint st u"
| "step st (Call_setSiteId e v) = state_of (setSiteId st e v)"
| "step st (Call_setDebug b) = setDebug st b"

definition run :: "tracker \<Rightarrow> signal list \<Rightarrow> tracker" where
  "run st sigs = foldl step st sigs"

subsection \<open>Everything ever queued\<close>

text \<open>The events accepted so far, in capture order.\<close>

definition history :: "tracker \<Rightarrow> event list" where
  "history st = pushed st"

text \<open>The events of the transmissions made so far.\<close>

fun batch_of :: "transmission \<Rightarrow> batch" where
  "batch_of (Beacon u b) = b"
| "batch_of (Fetch u h b) = b"

definition sent_events :: "tracker \<Rightarrow> event list" where
  "sent_events st = concat (map (events \<circ> batch_of) (network st))"

text \<open>
  \<open>accounted st\<close>: the events transmitted so far followed by the events
  in the queue are among the events ever queued, in the same order (those
  missing are the ones a throwing flush took off the queue).
\<close>

definition accounted :: "tracker \<Rightarrow> bool" where
  "accounted st \<longleftrightarrow> subseq (sent_events st @ eventQueue st) (history st)"

section \<open>Notions used in the statements\<close>

text \<open>The transmission a flush hands to the browser for the events \<open>evs\<close>.\<close>

definition transmission_of :: "tracker \<Rightarrow> env \<Rightarrow> event list \<Rightarrow> transmission" where
  "transmission_of st e evs =
     (if has_sendBeacon e then Beacon (endpoint (CONFIG st)) (mk_batch st e evs)
      else Fetch (endpoint (CONFIG st)) (siteId (CONFIG st)) (mk_batch st e evs))"

text \<open>
  Whether \<open>JSON.stringify\<close> returns on the payload a flush in state \<open>st\<close>
  builds for the events \<open>evs\<close>.
\<close>

definition sendable :: "tracker \<Rightarrow> event list \<Rightarrow> bool" where
  "sendable st evs \<longleftrightarrow>
     serialisable (siteId (CONFIG st)) \<and> list_all (\<lambda>ev. payload_serialisable (data ev)) evs"

definition is_setSiteId :: "signal \<Rightarrow> bool" where
  "is_setSiteId s = (case s of Call_setSiteId e v \<Rightarrow> True | _ \<Rightarrow> False)"

text \<open>
  \<open>quiet st st'\<close>: between \<open>st\<close> and \<open>st'\<close> nothing was queued or sent and
  the tenant id, the listeners and the timers are the same.
\<close>

definition quiet :: "tracker \<Rightarrow> tracker \<Rightarrow> bool" where
  "quiet st st' \<longleftrightarrow>
     eventQueue st' = eventQueue st \<and> network st' = network st \<and>
     siteId (CONFIG st') = siteId (CONFIG st) \<and> listeners st' = listeners st \<and>
     flushTimers st' = flushTimers st \<and> window_onerror st' = window_onerror st"


text \<open>The session a page load synthesizes when it finds nothing usable.\<close>

definition fresh_session :: "(nat \<Rightarrow> nat) \<Rightarrow> nat \<Rightarrow> int \<Rightarrow> int \<Rightarrow> session" where
  "fresh_session rnd k t0 t1 =
     \<lparr> id' = generateId rnd k, visitorId = generateId rnd (k + draws_per_id),
       startTime = t0, pageViews = 1, isNew = True, lastActivity = Some t1,
       userId = JUndefined, traits = JUndefined \<rparr>"


text \<open>
  A text without a space and without a semicolon, as the cookie grammar
  has names and values; a cookie store of such cookies.
\<close>

definition plain :: "string \<Rightarrow> bool" where
  "plain s \<longleftrightarrow> CHR '' '' \<notin> set s \<and> CHR '';'' \<notin> set s"

definition plain_jar :: "cookie_jar \<Rightarrow> bool" where
  "plain_jar jar \<longleftrightarrow> list_all plain jar"

text \<open>
  The value the first cookie of the store that starts with \<open>name=\<close> and has
  a value carries, if there is one.
\<close>

fun first_value :: "string \<Rightarrow> cookie_jar \<Rightarrow> string option" where
  "first_value name [] = None"
| "first_value name (c # cs) =
     (if take (length name + 1) c = name @ ''='' \<and> length name + 1 < length c
      then Some (drop (length name + 1) c)
      else first_value name cs)"

text \<open>The cookie store after the session \<open>s\<close> has been written to it.\<close>

definition stored :: "(json \<Rightarrow> string) \<Rightarrow> config \<Rightarrow> cookie_jar \<Rightarrow> session \<Rightarrow> cookie_jar" where
  "stored enc cfg jar s = Cookie_set enc jar (cookieName cfg) (JsonSession s) (cookieExpiry cfg)"

text \<open>
  The reading of the click descriptor's text that strips white space first
  and truncates afterwards.
\<close>

definition text_trimmed_then_cut :: "dom_element \<Rightarrow> jsstring" where
  "text_trimmed_then_cut t =
     slice0 100 (trim (case textContent t of Some s \<Rightarrow> s | None \<Rightarrow> []))"

text \<open>The text of the element descriptor of the event queued last, if that is a click.\<close>

definition last_click_text :: "tracker \<Rightarrow> jsstring option" where
  "last_click_text st =
     (if history st = [] then None
      else (case data (last (history st)) of
              ClickData el pos \<Rightarrow> Some (text' el)
            | _ \<Rightarrow> None))"

text \<open>The closures \<open>init\<close> creates, as opposed to the named handlers.\<close>

definition is_closure :: "handler \<Rightarrow> bool" where
  "is_closure h = (case h of H_beforeunload n \<Rightarrow> True | H_hidden_flush n \<Rightarrow> True | _ \<Rightarrow> False)"

text \<open>The events queued so far that carry the type tag \<open>T\<close>.\<close>

definition tagged :: "string \<Rightarrow> tracker \<Rightarrow> event list" where
  "tagged T st = filter (\<lambda>ev. type' ev = T) (history st)"

text \<open>The depth values of the scroll events queued so far, in order.\<close>

definition depth_of :: "event \<Rightarrow> int" where
  "depth_of ev = (case data ev of ScrollData d p \<Rightarrow> d | _ \<Rightarrow> 0)"

definition scroll_depths :: "tracker \<Rightarrow> int list" where
  "scroll_depths st = map depth_of (tagged ''scroll'' st)"

text \<open>The depth a signal makes the scroll handler compute (0 for other signals).\<close>

definition signal_depth :: "signal \<Rightarrow> int" where
  "signal_depth s = (case s of ScrollTimer e m \<Rightarrow> scrollDepth_of e m | _ \<Rightarrow> 0)"

text \<open>The clock readings of the mouse-move signals of a trace.\<close>

definition move_times :: "signal list \<Rightarrow> int list" where
  "move_times sigs = concat (map (\<lambda>s. case s of MouseMove now e ev \<Rightarrow> [now] | _ \<Rightarrow> []) sigs)"

text \<open>
  The clock readings of the mouse-move signals of a trace that are accepted
  as samples: those delivered to the attached handler at least the sample
  interval after the last accepted one.
\<close>

fun accepted_samples :: "tracker \<Rightarrow> signal list \<Rightarrow> int list" where
  "accepted_samples st [] = []"
| "accepted_samples st (s # sigs) =
     (case s of
        MouseMove now e ev \<Rightarrow>
          if H_mousemove \<in> set (listeners st) \<and>
             \<not> now - lastMouseSample st < mouseSampleRate (CONFIG st)
          then [now] else []
      | _ \<Rightarrow> []) @ accepted_samples (step st s) sigs"

text \<open>
  \<open>unmoved T st st'\<close>: between \<open>st\<close> and \<open>st'\<close> no event tagged \<open>T\<close> was
  queued and the recorded scroll maximum, the last mouse sample time and
  the sample interval are the same.
\<close>

definition unmoved :: "string \<Rightarrow> tracker \<Rightarrow> tracker \<Rightarrow> bool" where
  "unmoved T st st' \<longleftrightarrow>
     tagged T st' = tagged T st \<and> lastScrollDepth st' = lastScrollDepth st \<and>
     lastMouseSample st' = lastMouseSample st \<and>
     mouseSampleRate (CONFIG st') = mouseSampleRate (CONFIG st)"

text \<open>The two signals whose handlers are rate-limited.\<close>

definition is_rate_limited :: "signal \<Rightarrow> bool" where
  "is_rate_limited s = (case s of MouseMove now e ev \<Rightarrow> True | ScrollTimer e m \<Rightarrow> True | _ \<Rightarrow> False)"

text \<open>
  What holds of the scroll events queued so far: each depth exceeds the
  one before it by more than 10, each exceeds 10, and none exceeds the
  recorded maximum.
\<close>

definition scroll_inv :: "tracker \<Rightarrow> bool" where
  "scroll_inv st \<longleftrightarrow>
     successively (\<lambda>a b. a + 10 < b) (scroll_depths st) \<and>
     (\<forall>d \<in> set (scroll_depths st). 10 < d \<and> d \<le> lastScrollDepth st) \<and>
     0 \<le> lastScrollDepth st"

text \<open>A mouse-move signal that is delivered to the handler and not dropped by it.\<close>

definition is_accepted :: "tracker \<Rightarrow> signal \<Rightarrow> bool" where
  "is_accepted st s =
     (case s of
        MouseMove now e ev \<Rightarrow>
          H_mousemove \<in> set (listeners st) \<and>
          \<not> now - lastMouseSample st < mouseSampleRate (CONFIG st)
      | _ \<Rightarrow> False)"

section \<open>Concrete inputs\<close>

definition env_ex :: env where
  "env_ex = \<lparr> Date_now = 1700000000000, location_href = ''https://shop.example/cart'',
     location_pathname = ''/cart'', document_title = ''Cart'', document_referrer = [],
     innerWidth = 1280, innerHeight = 720, userAgent = ''UA'', language = ''en-US'',
     platform = ''Linux'', screen_width = 1920, screen_height = 1080,
     has_sendBeacon = True, document_hidden = False, visibilityState = ''visible'',
     uncaught = ErrorReport ''Uncaught TypeError: Converting circular structure to JSON''
       ''https://api.publickeyboard.com/script.js'' 183 45 None \<rparr>"

definition session_ex :: session where
  "session_ex = \<lparr> id' = ''0f0f0f0f-0f0f-40f0-8f0f-0f0f0f0f0f0f'',
     visitorId = ''a1a1a1a1-a1a1-41a1-9a1a-1a1a1a1a1a1a'',
     startTime = 1699999000000, pageViews = 3, isNew = False,
     lastActivity = Some 1699999990000, userId = JUndefined, traits = JUndefined \<rparr>"

text \<open>The tracker of a script loaded without a site id into a page that is already parsed.\<close>

definition idle_ex :: tracker where
  "idle_ex = \<lparr> CONFIG = CONFIG0, eventQueue = [], lastMouseSample = 0, session = session_ex,
     lastScrollDepth = 0, scrollTimeout = False, engagementTime = 0,
     lastEngagementCheck = 1699999990000, waInitialized = False,
     domReadyListener = False, listeners = [], window_onerror = False,
     flushTimers = 0, cookies = [], console = [], network = [], pushed = [] \<rparr>"

text \<open>The same tracker, activated and with \<open>n\<close> click events waiting in the queue.\<close>

definition queued_ex :: "nat \<Rightarrow> tracker" where
  "queued_ex n =
     idle_ex\<lparr> CONFIG := CONFIG0\<lparr>siteId := JStr ''T1''\<rparr>, waInitialized := True,
       listeners := [H_click, H_mousemove, H_scroll, H_focus, H_blur, H_change,
                     H_visibility, H_beforeunload 0, H_hidden_flush 0],
       window_onerror := True, flushTimers := 1,
       eventQueue := replicate n (newEvent idle_ex env_ex ''click'' NoData),
       pushed := replicate n (newEvent idle_ex env_ex ''click'' NoData) \<rparr>"


definition element_ex :: dom_element where
  "element_ex = \<lparr> tagName = ''BUTTON'', element_id = ''buy'', className = ''btn primary'',
     textContent = Some [0x42, 0x75, 0x79], element_href = None, closest_a_href = None,
     element_type = ''submit'', element_name = [], elementPath = ''button#buy'' \<rparr>"

definition click_ex :: mouse_event where
  "click_ex = \<lparr> target = element_ex, clientX = 10, clientY = 20, e_pageX = 10, e_pageY = 420 \<rparr>"

text \<open>
  A codec for the examples: a table of three raw cookie values, and the
  encoder that inverts it; every other raw value is unparsable.
\<close>

definition session_ex2 :: session where
  "session_ex2 = session_ex\<lparr> isNew := False, pageViews := 4, lastActivity := Some 1700000000000 \<rparr>"

definition session_ex3 :: session where
  "session_ex3 = session_ex\<lparr> isNew := False, pageViews := 5, lastActivity := Some 1700000100000 \<rparr>"

definition dec_ex :: "string \<Rightarrow> json option" where
  "dec_ex raw =
     (if raw = ''%7Bsession3%7D'' then Some (JsonSession session_ex)
      else if raw = ''%7Bsession4%7D'' then Some (JsonSession session_ex2)
      else if raw = ''%7Bsession5%7D'' then Some (JsonSession session_ex3)
      else if raw = ''42'' then Some (JsonNum 42)
      else None)"

definition enc_ex :: "json \<Rightarrow> string" where
  "enc_ex v =
     (if v = JsonSession session_ex then ''%7Bsession3%7D''
      else if v = JsonSession session_ex2 then ''%7Bsession4%7D''
      else if v = JsonSession session_ex3 then ''%7Bsession5%7D''
      else if v = JsonNum 42 then ''42''
      else ''%7B%7D'')"



definition jar_number_ex :: cookie_jar where
  "jar_number_ex = [''wa_session=42'']"



text \<open>A click on an element whose text is one space followed by a hundred letters.\<close>

definition click_padded_ex :: mouse_event where
  "click_padded_ex =
     click_ex\<lparr> target := element_ex\<lparr> textContent := Some (0x20 # replicate 100 0x61) \<rparr> \<rparr>"

definition ck_ex :: load_clock where
  "ck_ex = \<lparr> t_start = 1700000000000, t_act = 1700000000000, t_eng = 1700000000001 \<rparr>"

text \<open>
  The tracker of a script loaded without a site id while the document is
  still being parsed: the \<open>DOMContentLoaded\<close> listener is registered and
  nothing else has happened.
\<close>

definition early_ex :: "(nat \<Rightarrow> nat) \<Rightarrow> tracker" where
  "early_ex rnd =
     \<lparr> CONFIG = CONFIG0, eventQueue = [], lastMouseSample = 0,
       session = fresh_session rnd 0 1700000000000 1700000000000,
       lastScrollDepth = 0, scrollTimeout = False, engagementTime = 0,
       lastEngagementCheck = 1700000000001, waInitialized = False,
       domReadyListener = True, listeners = [], window_onerror = False,
       flushTimers = 0,
       cookies = stored enc_ex CONFIG0 []
         (fresh_session rnd 0 1700000000000 1700000000000),
       console = [], network = [], pushed = [] \<rparr>"

text \<open>Three mouse moves within one sample interval, with a click in between.\<close>

definition moves_ex :: "signal list" where
  "moves_ex = [MouseMove 1700000000000 env_ex click_ex, MouseMove 1700000000050 env_ex click_ex,
     Click env_ex click_ex, MouseMove 1700000000099 env_ex click_ex]"

text \<open>The tracker of a script loaded with \<open>data-site-id="T1"\<close> into a parsed page with no cookie.\<close>

definition tag_ex :: script_tag where
  "tag_ex = \<lparr> data_site_id = Some ''T1'', data_endpoint = None, data_debug = None \<rparr>"

definition loaded_ex :: tracker where
  "loaded_ex = state_of (
     init \<lparr> CONFIG = CONFIG0\<lparr>siteId := JStr ''T1''\<rparr>, eventQueue = [], lastMouseSample = 0,
            session = fresh_session (\<lambda>k. k) 0 1700000000000 1700000000000,
            lastScrollDepth = 0, scrollTimeout = False, engagementTime = 0,
            lastEngagementCheck = 1700000000001, waInitialized = True,
            domReadyListener = False, listeners = [], window_onerror = False,
            flushTimers = 0,
            cookies = stored enc_ex (CONFIG0\<lparr>siteId := JStr ''T1''\<rparr>) []
              (fresh_session (\<lambda>k. k) 0 1700000000000 1700000000000),
            console = [], network = [], pushed = [] \<rparr> env_ex)"

text \<open>
  Scroll positions on a page of height 1720 in a viewport of height 720:
  the position \<open>y\<close> is at \<open>y / 10\<close> percent.
\<close>

definition metrics_ex :: "rat \<Rightarrow> scroll_metrics" where
  "metrics_ex y = \<lparr> pageYOffset = y, docEl_scrollTop = y, body_scrollHeight = 1720,
     docEl_scrollHeight = 1720 \<rparr>"

definition scrolls_ex :: "signal list" where
  "scrolls_ex = [Scroll, ScrollTimer env_ex (metrics_ex 250),
     Scroll, ScrollTimer env_ex (metrics_ex 300), ScrollTimer env_ex (metrics_ex 900),
     Scroll, Scroll, ScrollTimer env_ex (metrics_ex 604), Call_flush env_ex,
     Scroll, ScrollTimer env_ex (metrics_ex 1000)]"


section \<open>Properties of the queue and of flushing\<close>

lemma flush_cases:
  "flush st e =
     (if eventQueue st = [] \<or> \<not> truthy (siteId (CONFIG st)) then Returned st
      else if sendable st (eventQueue st)
      then Returned (st\<lparr>eventQueue := [],
                        network := network st @ [transmission_of st e (eventQueue st)]\<rparr>)
      else Threw TypeError (st\<lparr>eventQueue := []\<rparr>))"
  by (simp add: flush_def Let_def transmission_of_def mk_batch_def sendable_def
      batch_serialisable_def)

lemma flush_noop:
  "eventQueue st = [] \<or> \<not> truthy (siteId (CONFIG st)) \<Longrightarrow> flush st e = Returned st"
  by (auto simp: flush_def)



lemma flush_frame [simp]:
  "CONFIG (state_of (flush st e)) = CONFIG st"
  "lastMouseSample (state_of (flush st e)) = lastMouseSample st"
  "session (state_of (flush st e)) = session st"
  "lastScrollDepth (state_of (flush st e)) = lastScrollDepth st"
  "scrollTimeout (state_of (flush st e)) = scrollTimeout st"
  "engagementTime (state_of (flush st e)) = engagementTime st"
  "lastEngagementCheck (state_of (flush st e)) = lastEngagementCheck st"
  "waInitialized (state_of (flush st e)) = waInitialized st"
  "domReadyListener (state_of (flush st e)) = domReadyListener st"
  "listeners (state_of (flush st e)) = listeners st"
  "window_onerror (state_of (flush st e)) = window_onerror st"
  "flushTimers (state_of (flush st e)) = flushTimers st"
  "cookies (state_of (flush st e)) = cookies st"
  "console (state_of (flush st e)) = console st"
  "pushed (state_of (flush st e)) = pushed st"
  by (simp_all add: flush_cases)

lemma history_flush [simp]: "history (state_of (flush st e)) = history st"
  by (simp add: history_def)


lemma trackEvent_suppressed:
  "\<not> truthy (siteId (CONFIG st)) \<Longrightarrow>
   trackEvent st e ty d =
     Returned (if debug (CONFIG st)
               then st\<lparr>console := console st @ [Warn site_id_warning]\<rparr> else st)"
  by (simp add: trackEvent_def createEvent_def)

lemma trackEvent_accepted:
  "truthy (siteId (CONFIG st)) \<Longrightarrow>
   trackEvent st e ty d =
     (let q = eventQueue st @ [newEvent st e ty d];
          c = (if debug (CONFIG st) then console st @ [Log (''[Analytics] '' @ ty)] else console st);
          p = pushed st @ [newEvent st e ty d]
      in if batchSize (CONFIG st) \<le> int (length q)
         then if sendable st q
              then Returned (st\<lparr>eventQueue := [], console := c,
                                network := network st @ [transmission_of st e q], pushed := p\<rparr>)
              else Threw TypeError (st\<lparr>eventQueue := [], console := c, pushed := p\<rparr>)
         else Returned (st\<lparr>eventQueue := q, console := c, pushed := p\<rparr>))"
  by (simp add: trackEvent_def createEvent_def Let_def flush_cases transmission_of_def
      mk_batch_def sendable_def)

lemma trackEvent_frame [simp]:
  "CONFIG (state_of (trackEvent st e ty d)) = CONFIG st"
  "lastMouseSample (state_of (trackEvent st e ty d)) = lastMouseSample st"
  "session (state_of (trackEvent st e ty d)) = session st"
  "lastScrollDepth (state_of (trackEvent st e ty d)) = lastScrollDepth st"
  "scrollTimeout (state_of (trackEvent st e ty d)) = scrollTimeout st"
  "engagementTime (state_of (trackEvent st e ty d)) = engagementTime st"
  "lastEngagementCheck (state_of (trackEvent st e ty d)) = lastEngagementCheck st"
  "waInitialized (state_of (trackEvent st e ty d)) = waInitialized st"
  "domReadyListener (state_of (trackEvent st e ty d)) = domReadyListener st"
  "listeners (state_of (trackEvent st e ty d)) = listeners st"
  "window_onerror (state_of (trackEvent st e ty d)) = window_onerror st"
  "flushTimers (state_of (trackEvent st e ty d)) = flushTimers st"
  "cookies (state_of (trackEvent st e ty d)) = cookies st"
  by (simp_all add: trackEvent_def createEvent_def Let_def)

lemma history_trackEvent:
  "history (state_of (trackEvent st e ty d)) =
     (if truthy (siteId (CONFIG st)) then history st @ [newEvent st e ty d] else history st)"
  by (simp add: trackEvent_def createEvent_def Let_def history_def)

lemma trackEvent_suppressed_fields:
  assumes "\<not> truthy (siteId (CONFIG st))"
  shows "eventQueue (state_of (trackEvent st e ty d)) = eventQueue st"
    and "network (state_of (trackEvent st e ty d)) = network st"
    and "pushed (state_of (trackEvent st e ty d)) = pushed st"
    and "\<not> threw (trackEvent st e ty d)"
  using assms by (simp_all add: trackEvent_suppressed)

text \<open>
  The trace \<open>pushed\<close> against what the script itself holds: as long as no
  flush has thrown, the events ever queued are those transmitted followed
  by those still in the queue.
\<close>

lemma sent_events_snoc:
  "sent_events (st\<lparr>network := network st @ [transmission_of st e q]\<rparr>) = sent_events st @ q"
  by (simp add: sent_events_def transmission_of_def mk_batch_def)

lemma flush_accounted:
  assumes "sent_events st @ eventQueue st = history st" and "\<not> threw (flush st e)"
  shows "sent_events (state_of (flush st e)) @ eventQueue (state_of (flush st e)) =
         history (state_of (flush st e))"
  using assms
  by (auto simp: flush_cases history_def sent_events_def transmission_of_def mk_batch_def
      split: if_splits)

lemma trackEvent_accounted:
  assumes "sent_events st @ eventQueue st = history st" and "\<not> threw (trackEvent st e ty d)"
  shows "sent_events (state_of (trackEvent st e ty d)) @
           eventQueue (state_of (trackEvent st e ty d)) =
         history (state_of (trackEvent st e ty d))"
proof (cases "truthy (siteId (CONFIG st))")
  case True
  with assms show ?thesis
    by (auto simp: trackEvent_accepted Let_def history_def sent_events_def transmission_of_def
        mk_batch_def split: if_splits)
next
  case False
  with assms show ?thesis
    by (auto simp: trackEvent_suppressed history_def sent_events_def)
qed

lemma report_Returned [simp]: "report e (Returned st) = st"
  by (simp add: report_def)

lemma report_Threw:
  "report e (Threw err st) =
     (if window_onerror st
      then (case uncaught e of
              ErrorReport message source lineno colno stack \<Rightarrow>
                state_of (trackError st e message source lineno colno stack))
      else st)"
  by (simp add: report_def)

lemma report_frame [simp]:
  "CONFIG (report e r) = CONFIG (state_of r)"
  "lastMouseSample (report e r) = lastMouseSample (state_of r)"
  "session (report e r) = session (state_of r)"
  "lastScrollDepth (report e r) = lastScrollDepth (state_of r)"
  "scrollTimeout (report e r) = scrollTimeout (state_of r)"
  "engagementTime (report e r) = engagementTime (state_of r)"
  "lastEngagementCheck (report e r) = lastEngagementCheck (state_of r)"
  "waInitialized (report e r) = waInitialized (state_of r)"
  "domReadyListener (report e r) = domReadyListener (state_of r)"
  "listeners (report e r) = listeners (state_of r)"
  "window_onerror (report e r) = window_onerror (state_of r)"
  "flushTimers (report e r) = flushTimers (state_of r)"
  "cookies (report e r) = cookies (state_of r)"
  by (cases r; cases "uncaught e"; simp add: report_def trackError_def)+

lemma report_not_threw: "\<not> threw r \<Longrightarrow> report e r = state_of r"
  by (cases r) simp_all

lemma init_suppressed:
  "\<not> truthy (siteId (CONFIG st)) \<Longrightarrow>
   init st e = Returned (st\<lparr>console := console st @ [Warn no_site_id_warning]\<rparr>)"
  by (simp add: init_def)

lemma init_CONFIG [simp]: "CONFIG (state_of (init st e)) = CONFIG st"
proof (cases "trackPageView st e")
  case (Returned st1)
  moreover from Returned have "CONFIG st1 = CONFIG st"
    using trackEvent_frame(1) [of st e "''pageview''"
        "PageViewData (isNew (session st)) (pageViews (session st))"]
    by (simp add: trackPageView_def)
  ultimately show ?thesis
    by (simp add: init_def Let_def)
next
  case (Threw err st1)
  moreover from Threw have "CONFIG st1 = CONFIG st"
    using trackEvent_frame(1) [of st e "''pageview''"
        "PageViewData (isNew (session st)) (pageViews (session st))"]
    by (simp add: trackPageView_def)
  ultimately show ?thesis
    by (simp add: init_def Let_def)
qed

lemma quiet_refl [simp]: "quiet st st"
  by (simp add: quiet_def)

lemma quiet_trans: "quiet a b \<Longrightarrow> quiet b c \<Longrightarrow> quiet a c"
  by (simp add: quiet_def)

lemma quiet_falsy: "quiet st st' \<Longrightarrow> truthy (siteId (CONFIG st')) = truthy (siteId (CONFIG st))"
  by (simp add: quiet_def)

lemma quiet_trackEvent:
  "\<not> truthy (siteId (CONFIG st)) \<Longrightarrow> quiet st (state_of (trackEvent st e ty d))"
  by (simp add: quiet_def trackEvent_suppressed_fields)

lemma quiet_flush:
  "\<not> truthy (siteId (CONFIG st)) \<Longrightarrow> quiet st (state_of (flush st e))"
  by (simp add: flush_noop)

lemma quiet_report:
  "\<not> truthy (siteId (CONFIG (state_of r))) \<Longrightarrow> quiet (state_of r) (report e r)"
proof (cases r)
  case (Returned st)
  then show ?thesis by simp
next
  case (Threw err st)
  assume "\<not> truthy (siteId (CONFIG (state_of r)))"
  with Threw show ?thesis
    by (cases "uncaught e") (simp add: report_Threw trackError_def quiet_trackEvent)
qed

lemma quiet_reported:
  assumes "\<not> truthy (siteId (CONFIG st))" and "quiet st (state_of r)"
  shows "quiet st (report e r)"
proof -
  from assms have "\<not> truthy (siteId (CONFIG (state_of r)))"
    by (simp add: quiet_falsy)
  then have "quiet (state_of r) (report e r)"
    by (rule quiet_report)
  with assms(2) show ?thesis
    by (rule quiet_trans)
qed

lemma quiet_on_beforeunload:
  assumes "\<not> truthy (siteId (CONFIG st))"
  shows "quiet st (state_of (on_beforeunload st now e))"
proof -
  let ?d = "PageExitData (now - startTime (session st)) (engagementTime st) (lastScrollDepth st)"
  obtain st1 where r: "trackEvent st e ''page_exit'' ?d = Returned st1"
    and q: "quiet st st1"
    using assms quiet_trackEvent [OF assms, of e "''page_exit''" ?d]
    by (simp add: trackEvent_suppressed)
  from q assms have "\<not> truthy (siteId (CONFIG st1))"
    by (simp add: quiet_falsy)
  then have "quiet st1 (state_of (flush st1 e))"
    by (rule quiet_flush)
  with q have "quiet st (state_of (flush st1 e))"
    by (rule quiet_trans)
  with r show ?thesis
    by (simp add: on_beforeunload_def)
qed

lemma quiet_dispatch_visibilitychange:
  "\<not> truthy (siteId (CONFIG st)) \<Longrightarrow> quiet st (dispatch_visibilitychange hs st e)"
proof (induction hs st e rule: dispatch_visibilitychange.induct)
  case (2 hs st e)
  have a: "quiet st (report e (trackVisibility st e))"
    using 2(2) by (simp add: quiet_reported trackVisibility_def quiet_trackEvent)
  with 2(2) have "\<not> truthy (siteId (CONFIG (report e (trackVisibility st e))))"
    using quiet_falsy by blast
  then have "quiet (report e (trackVisibility st e))
      (dispatch_visibilitychange hs (report e (trackVisibility st e)) e)"
    by (rule 2(1))
  with a have "quiet st (dispatch_visibilitychange hs (report e (trackVisibility st e)) e)"
    by (rule quiet_trans)
  then show ?case
    by simp
next
  case (3 n hs st e)
  have a: "quiet st (report e (on_hidden_flush st e))"
    using 3(2) by (simp add: quiet_reported on_hidden_flush_def quiet_flush)
  with 3(2) have "\<not> truthy (siteId (CONFIG (report e (on_hidden_flush st e))))"
    using quiet_falsy by blast
  then have "quiet (report e (on_hidden_flush st e))
      (dispatch_visibilitychange hs (report e (on_hidden_flush st e)) e)"
    by (rule 3(1))
  with a have "quiet st (dispatch_visibilitychange hs (report e (on_hidden_flush st e)) e)"
    by (rule quiet_trans)
  then show ?case
    by simp
qed simp_all

lemma quiet_dispatch_beforeunload:
  "\<not> truthy (siteId (CONFIG st)) \<Longrightarrow> quiet st (dispatch_beforeunload hs st now e)"
proof (induction hs st now e rule: dispatch_beforeunload.induct)
  case (2 n hs st now e)
  have a: "quiet st (report e (on_beforeunload st now e))"
    using 2(2) by (simp add: quiet_reported quiet_on_beforeunload)
  with 2(2) have "\<not> truthy (siteId (CONFIG (report e (on_beforeunload st now e))))"
    using quiet_falsy by blast
  then have "quiet (report e (on_beforeunload st now e))
      (dispatch_beforeunload hs (report e (on_beforeunload st now e)) now e)"
    by (rule 2(1))
  with a have "quiet st (dispatch_beforeunload hs (report e (on_beforeunload st now e)) now e)"
    by (rule quiet_trans)
  then show ?case
    by simp
qed simp_all

text \<open>
  \<open>identify\<close> with a user id or traits that cannot be serialised: the
  session object has taken them, the cookie is not written and no event is
  created.
\<close>

lemma identify_throws:
  "\<not> (serialisable uid \<and> serialisable tr) \<Longrightarrow>
   identify enc st e uid tr =
     Threw TypeError (st\<lparr>session := (session st)\<lparr>userId := uid, traits := tr\<rparr>\<rparr>)"
  by (simp add: identify_def Let_def)

lemma quiet_identify:
  assumes "\<not> truthy (siteId (CONFIG st))"
  shows "quiet st (state_of (identify enc st e uid tr))"
  using assms
  by (simp add: identify_def Let_def quiet_def trackEvent_suppressed_fields)

lemma quiet_step:
  assumes "\<not> truthy (siteId (CONFIG st))" and "\<not> is_setSiteId s"
  shows "quiet st (step st s)"
proof (cases s)
  case (DOMContentLoaded e)
  with assms show ?thesis by (simp add: domContentLoaded_def)
next
  case (Click e ev)
  with assms show ?thesis
    by (simp add: quiet_reported trackClick_def Let_def quiet_trackEvent)
next
  case (MouseMove now e ev)
  have "quiet st (state_of (trackMouseMove st now e ev))"
    using assms by (simp add: trackMouseMove_def quiet_def trackEvent_suppressed_fields)
  with MouseMove assms show ?thesis
    by (simp add: quiet_reported)
next
  case Scroll
  then show ?thesis by (simp add: trackScroll_def quiet_def)
next
  case (ScrollTimer e m)
  have "quiet st (state_of (scroll_settled (st\<lparr>scrollTimeout := False\<rparr>) e m))"
    using assms by (simp add: scroll_settled_def Let_def quiet_def trackEvent_suppressed_fields)
  with ScrollTimer assms show ?thesis
    by (simp add: quiet_reported)
next
  case (Focus e t)
  with assms show ?thesis
    by (simp add: quiet_reported trackFormInteraction_def quiet_trackEvent)
next
  case (Blur e t)
  with assms show ?thesis
    by (simp add: quiet_reported trackFormInteraction_def quiet_trackEvent)
next
  case (Change e t)
  with assms show ?thesis
    by (simp add: quiet_reported trackFormInteraction_def quiet_trackEvent)
next
  case (VisibilityChange e)
  with assms show ?thesis by (simp add: quiet_dispatch_visibilitychange)
next
  case (ErrorEvent e message source lineno colno stack)
  with assms show ?thesis by (simp add: trackError_def quiet_trackEvent)
next
  case (BeforeUnload now e)
  with assms show ?thesis by (simp add: quiet_dispatch_beforeunload)
next
  case (FlushTimer e)
  with assms show ?thesis by (simp add: quiet_reported quiet_flush)
next
  case (EngagementTimer e t1 t2)
  then show ?thesis by (simp add: updateEngagement_def quiet_def)
next
  case (Call_track e eventName d)
  with assms show ?thesis by (simp add: track_def quiet_trackEvent)
next
  case (Call_identify enc e uid tr)
  with assms show ?thesis by (simp add: quiet_identify)
next
  case (Call_flush e)
  with assms show ?thesis by (simp add: quiet_flush)
next
  case (Call_setEndpoint u)
  then show ?thesis by (simp add: setEndpoint_def quiet_def)
next
  case (Call_setSiteId e v)
  with assms show ?thesis by (simp add: is_setSiteId_def)
next
  case (Call_setDebug b)
  then show ?thesis by (simp add: setDebug_def quiet_def)
qed

lemma quiet_run:
  "\<not> truthy (siteId (CONFIG st)) \<Longrightarrow> \<forall>s \<in> set sigs. \<not> is_setSiteId s \<Longrightarrow>
   quiet st (run st sigs)"
proof (induction sigs arbitrary: st)
  case Nil
  then show ?case by (simp add: run_def)
next
  case (Cons s sigs)
  have a: "quiet st (step st s)"
    using Cons.prems by (simp add: quiet_step)
  then have "\<not> truthy (siteId (CONFIG (step st s)))"
    using Cons.prems by (simp add: quiet_falsy)
  then have "quiet (step st s) (run (step st s) sigs)"
    using Cons by simp
  with a show ?case
    by (auto simp: run_def intro: quiet_trans)
qed



text \<open>
  C3. While no site id is configured, \<open>createEvent\<close> returns \<open>null\<close> and
  \<open>trackEvent\<close> returns without an exception, having changed nothing but
  the console, to which it adds one warning in debug mode and nothing
  otherwise. The queue keeps its content through any number of signals that
  do not set the site id, so a queue that is empty stays empty.
\<close>

theorem no_site_id_nothing_queued:
  assumes "\<not> truthy (siteId (CONFIG st))"
  shows "snd (createEvent st e ty d) = None \<and>
         trackEvent st e ty d =
           Returned (if debug (CONFIG st)
                     then st\<lparr>console := console st @ [Warn site_id_warning]\<rparr> else st) \<and>
         eventQueue (state_of (trackEvent st e ty d)) = eventQueue st \<and>
         network (state_of (trackEvent st e ty d)) = network st \<and>
         ((\<forall>s \<in> set sigs. \<not> is_setSiteId s) \<longrightarrow>
            eventQueue (run st sigs) = eventQueue st \<and>
            network (run st sigs) = network st \<and>
            (eventQueue st = [] \<longrightarrow> length (eventQueue (run st sigs)) = 0))"
proof -
  have a: "snd (createEvent st e ty d) = None"
    using assms by (simp add: createEvent_def)
  have b: "(\<forall>s \<in> set sigs. \<not> is_setSiteId s) \<longrightarrow> quiet st (run st sigs)"
    using assms by (simp add: quiet_run)
  show ?thesis
    using assms a b
    by (auto simp: trackEvent_suppressed quiet_def)
qed

theorem no_site_id_nothing_queued_witness:
  "\<not> truthy (siteId (CONFIG idle_ex)) \<and>
   snd (createEvent idle_ex env_ex ''click'' NoData) = None \<and>
   trackEvent idle_ex env_ex ''click'' NoData = Returned idle_ex \<and>
   length (eventQueue (run idle_ex
     [Click env_ex click_ex, Call_track env_ex ''signup'' JNull, Call_flush env_ex])) = 0"
proof -
  have h: "\<not> truthy (siteId (CONFIG idle_ex))"
    by (simp add: idle_ex_def CONFIG0_def)
  have q: "eventQueue idle_ex = []" and d: "\<not> debug (CONFIG idle_ex)"
    by (simp_all add: idle_ex_def CONFIG0_def)
  have s: "\<forall>s \<in> set [Click env_ex click_ex, Call_track env_ex ''signup'' JNull, Call_flush env_ex].
             \<not> is_setSiteId s"
    by (simp add: is_setSiteId_def)
  show ?thesis
    using no_site_id_nothing_queued [OF h, of env_ex "''click''" NoData
        "[Click env_ex click_ex, Call_track env_ex ''signup'' JNull, Call_flush env_ex]"]
      h q d s
    by simp
qed




lemma setSiteId_falsy:
  "\<not> truthy v \<Longrightarrow> setSiteId st e v = Returned (st\<lparr>CONFIG := (CONFIG st)\<lparr>siteId := v\<rparr>\<rparr>)"
  by (simp add: setSiteId_def Let_def)

lemma setSiteId_siteId: "siteId (CONFIG (state_of (setSiteId st e v))) = v"
  by (simp add: setSiteId_def Let_def)

text \<open>
  C10. \<open>setSiteId\<close> stores its argument as the site id whatever the argument
  is. When the argument is falsy the call returns and nothing else changes:
  listeners, the error hook and the flush timers stay as they were, and from
  then on \<open>createEvent\<close> returns \<open>null\<close>, \<open>trackEvent\<close> leaves the queue
  alone, and no signal queues or sends anything until the site id is set
  again.
\<close>

theorem setSiteId_overwrites_and_falsy_suppresses:
  "siteId (CONFIG (state_of (setSiteId st e v))) = v \<and>
   (\<not> truthy v \<longrightarrow>
      setSiteId st e v = Returned (st\<lparr>CONFIG := (CONFIG st)\<lparr>siteId := v\<rparr>\<rparr>) \<and>
      listeners (state_of (setSiteId st e v)) = listeners st \<and>
      flushTimers (state_of (setSiteId st e v)) = flushTimers st \<and>
      window_onerror (state_of (setSiteId st e v)) = window_onerror st \<and>
      snd (createEvent (state_of (setSiteId st e v)) e2 ty d) = None \<and>
      eventQueue (state_of (trackEvent (state_of (setSiteId st e v)) e2 ty d)) = eventQueue st \<and>
      ((\<forall>s \<in> set sigs. \<not> is_setSiteId s) \<longrightarrow>
         eventQueue (run (state_of (setSiteId st e v)) sigs) = eventQueue st \<and>
         network (run (state_of (setSiteId st e v)) sigs) = network st \<and>
         listeners (run (state_of (setSiteId st e v)) sigs) = listeners st \<and>
         flushTimers (run (state_of (setSiteId st e v)) sigs) = flushTimers st))"
proof -
  let ?st' = "state_of (setSiteId st e v)"
  have a: "siteId (CONFIG ?st') = v"
    by (rule setSiteId_siteId)
  have b: "setSiteId st e v = Returned (st\<lparr>CONFIG := (CONFIG st)\<lparr>siteId := v\<rparr>\<rparr>)" if "\<not> truthy v"
    using that by (rule setSiteId_falsy)
  have c: "quiet ?st' (run ?st' sigs)"
    if "\<not> truthy v" "\<forall>s \<in> set sigs. \<not> is_setSiteId s"
    using that a by (simp add: quiet_run)
  have d: "snd (createEvent ?st' e2 ty d) = None" if "\<not> truthy v"
    using that a by (simp add: createEvent_def)
  have f: "eventQueue (state_of (trackEvent ?st' e2 ty d)) = eventQueue ?st'"
    if "\<not> truthy v"
    using that a by (simp add: trackEvent_suppressed_fields)
  show ?thesis
  proof (cases "truthy v")
    case True
    with a show ?thesis by simp
  next
    case False
    have g: "eventQueue ?st' = eventQueue st"
      "network ?st' = network st"
      "listeners ?st' = listeners st"
      "flushTimers ?st' = flushTimers st"
      "window_onerror ?st' = window_onerror st"
      by (simp_all add: b [OF False])
    from False a b c d f g show ?thesis
      by (auto simp: quiet_def)
  qed
qed

theorem setSiteId_overwrites_and_falsy_suppresses_witness:
  "\<not> truthy (JStr []) \<and>
   truthy (siteId (CONFIG (queued_ex 2))) \<and>
   siteId (CONFIG (state_of (setSiteId (queued_ex 2) env_ex (JStr [])))) = JStr [] \<and>
   listeners (state_of (setSiteId (queued_ex 2) env_ex (JStr []))) = listeners (queued_ex 2) \<and>
   flushTimers (state_of (setSiteId (queued_ex 2) env_ex (JStr []))) = 1 \<and>
   snd (createEvent (state_of (setSiteId (queued_ex 2) env_ex (JStr []))) env_ex ''click'' NoData)
     = None \<and>
   length (eventQueue (run (state_of (setSiteId (queued_ex 2) env_ex (JStr [])))
     [Click env_ex click_ex, Call_flush env_ex])) = 2 \<and>
   network (run (state_of (setSiteId (queued_ex 2) env_ex (JStr [])))
     [Click env_ex click_ex, Call_flush env_ex]) = []"
proof -
  let ?st' = "state_of (setSiteId (queued_ex 2) env_ex (JStr []))"
  have h: "\<not> truthy (JStr [])"
    by simp
  have s: "\<forall>s \<in> set [Click env_ex click_ex, Call_flush env_ex]. \<not> is_setSiteId s"
    by (simp add: is_setSiteId_def)
  have q: "truthy (siteId (CONFIG (queued_ex 2)))" "length (eventQueue (queued_ex 2)) = 2"
    "network (queued_ex 2) = []" "flushTimers (queued_ex 2) = 1"
    by (simp_all add: queued_ex_def idle_ex_def)
  note t = setSiteId_overwrites_and_falsy_suppresses
        [of "queued_ex 2" env_ex "JStr []" env_ex "''click''" NoData
            "[Click env_ex click_ex, Call_flush env_ex]"]
  from t have a: "siteId (CONFIG ?st') = JStr []"
    by blast
  from t h have b: "listeners ?st' = listeners (queued_ex 2)"
    and c: "flushTimers ?st' = flushTimers (queued_ex 2)"
    and d: "snd (createEvent ?st' env_ex ''click'' NoData) = None"
    by blast+
  from t h s have f: "eventQueue (run ?st'
       [Click env_ex click_ex, Call_flush env_ex]) = eventQueue (queued_ex 2)"
    and g: "network (run ?st'
       [Click env_ex click_ex, Call_flush env_ex]) = network (queued_ex 2)"
    by blast+
  from c q have c': "flushTimers ?st' = 1"
    by simp
  from f q have f': "length (eventQueue (run ?st'
       [Click env_ex click_ex, Call_flush env_ex])) = 2"
    by simp
  from g q have g': "network (run ?st'
       [Click env_ex click_ex, Call_flush env_ex]) = []"
    by simp
  from h q(1) a b c' d f' g' show ?thesis
    by blast
qed

section \<open>Properties of the identity store\<close>

subsection \<open>The configuration the script starts from\<close>

lemma configure_cookie [simp]:
  "cookieName (configure tg) = ''wa_session''" "cookieExpiry (configure tg) = 30"
  by (simp_all add: configure_def CONFIG0_def Let_def split: option.splits)

subsection \<open>What the pattern of the cookie reader finds\<close>

lemma match_at_Nil [simp]: "match_at name [] = None"
  by (simp add: match_at_def)

lemma search_True:
  "search name True s =
     (case match_at name s of Some v \<Rightarrow> Some v | None \<Rightarrow> search name False s)"
  by (cases s) (auto split: option.splits)

lemma search_no_space:
  "CHR '' '' \<notin> set c \<Longrightarrow> search name False (c @ s) = search name False s"
  by (induction c) auto

lemma search_separator:
  "search name False (CHR '';'' # CHR '' '' # s) = search name True s"
  by (auto simp: search_True split: option.splits)

lemma document_cookie_Cons:
  "document_cookie (c # cs) = c @ (if cs = [] then [] else ''; '' @ document_cookie cs)"
  by (cases cs) simp_all

lemma takeWhile_plain:
  assumes "CHR '';'' \<notin> set c" and "t = [] \<or> hd t = CHR '';''"
  shows "takeWhile (\<lambda>x. x \<noteq> CHR '';'') (c @ t) = c"
proof -
  from assms(2) have "takeWhile (\<lambda>x. x \<noteq> CHR '';'') t = []"
    by (cases t) auto
  moreover from assms(1) have "takeWhile (\<lambda>x. x \<noteq> CHR '';'') (c @ t) =
      c @ takeWhile (\<lambda>x. x \<noteq> CHR '';'') t"
    by (intro takeWhile_append2) auto
  ultimately show ?thesis
    by simp
qed

lemma match_at_plain:
  assumes "plain name" and "plain c" and "t = [] \<or> hd t = CHR '';''"
  shows "match_at name (c @ t) =
     (if take (length name + 1) c = name @ ''='' \<and> length name + 1 < length c
      then Some (drop (length name + 1) c) else None)"
proof -
  define n where "n = length name + 1"
  have m: "match_at name (c @ t) =
      (if take n (c @ t) = name @ ''=''
       then (if takeWhile (\<lambda>x. x \<noteq> CHR '';'') (drop n (c @ t)) = [] then None
             else Some (takeWhile (\<lambda>x. x \<noteq> CHR '';'') (drop n (c @ t))))
       else None)"
    unfolding match_at_def n_def Let_def ..
  have goal: "match_at name (c @ t) =
      (if take n c = name @ ''='' \<and> n < length c then Some (drop n c) else None)"
  proof (cases "n \<le> length c")
    case True
    have "CHR '';'' \<notin> set (drop n c)"
      using assms(2) by (auto simp: plain_def dest: in_set_dropD)
    then have tw: "takeWhile (\<lambda>x. x \<noteq> CHR '';'') (drop n c @ t) = drop n c"
      using assms(3) by (rule takeWhile_plain)
    from True have tk: "take n (c @ t) = take n c" and dr: "drop n (c @ t) = drop n c @ t"
      by simp_all
    from True have e: "drop n c = [] \<longleftrightarrow> \<not> n < length c"
      by auto
    show ?thesis
      unfolding m tk dr tw using e by simp
  next
    case False
    then have short: "length c < n"
      by simp
    have c_short: "take n c \<noteq> name @ ''=''"
    proof
      assume "take n c = name @ ''=''"
      then have "length (take n c) = length (name @ ''='')"
        by (rule arg_cong)
      with short show False
        by (simp add: n_def)
    qed
    have "take n (c @ t) \<noteq> name @ ''=''"
    proof (cases t)
      case Nil
      with c_short show ?thesis
        by simp
    next
      case (Cons x xs)
      with assms(3) have x: "x = CHR '';''"
        by simp
      show ?thesis
      proof
        assume eq: "take n (c @ t) = name @ ''=''"
        from short have "take n (c @ t) ! length c = (c @ t) ! length c"
          by (rule nth_take)
        also from Cons x have "\<dots> = CHR '';''"
          by (simp add: nth_append)
        finally have "(name @ ''='') ! length c = CHR '';''"
          using eq by simp
        moreover from short have "length c < length (name @ ''='')"
          by (simp add: n_def)
        ultimately have "CHR '';'' \<in> set (name @ ''='')"
          by (metis nth_mem)
        with assms(1) show False
          by (simp add: plain_def)
      qed
    qed
    with c_short show ?thesis
      unfolding m by simp
  qed
  then show ?thesis
    unfolding n_def .
qed

text \<open>
  In a cookie store whose cookies hold no space and no semicolon the pattern
  can only match at the start of a cookie, so the reader finds the first
  cookie that starts with \<open>name=\<close> and has a value.
\<close>

lemma search_plain:
  assumes "plain name"
  shows "plain_jar jar \<Longrightarrow> search name True (document_cookie jar) = first_value name jar"
proof (induction jar)
  case Nil
  then show ?case by simp
next
  case (Cons c cs)
  let ?t = "if cs = [] then [] else ''; '' @ document_cookie cs"
  from Cons.prems have c: "plain c" and cs: "plain_jar cs"
    by (simp_all add: plain_jar_def)
  have t: "?t = [] \<or> hd ?t = CHR '';''"
    by simp
  have rest: "search name False (c @ ?t) = first_value name cs"
  proof (cases "cs = []")
    case True
    with c show ?thesis
      using search_no_space [of c name "[]"] by (simp add: plain_def)
  next
    case False
    with c have "search name False (c @ ?t) = search name True (document_cookie cs)"
      using search_no_space [of c name "''; '' @ document_cookie cs"]
      by (simp add: plain_def search_separator del: search.simps)
    with cs show ?thesis
      by (simp add: Cons.IH)
  qed
  have "search name True (document_cookie (c # cs)) =
      (case match_at name (c @ ?t) of Some v \<Rightarrow> Some v | None \<Rightarrow> search name False (c @ ?t))"
    by (simp only: document_cookie_Cons search_True)
  also have "\<dots> = first_value name (c # cs)"
    by (simp only: match_at_plain [OF assms c t] rest) simp
  finally show ?case .
qed

lemma prefix_cookie_name:
  assumes "CHR ''='' \<notin> set name" and "take (length name + 1) c = name @ ''=''"
  shows "cookie_name c = name"
proof -
  have "c = (name @ ''='') @ drop (length name + 1) c"
    using assms(2) by (metis append_take_drop_id)
  then obtain r where c: "c = name @ CHR ''='' # r"
    by simp
  moreover from assms(1) have "takeWhile (\<lambda>x. x \<noteq> CHR ''='') name = name"
    by (auto simp: takeWhile_eq_all_conv)
  ultimately show ?thesis
    by (simp add: cookie_name_def takeWhile_tail)
qed

lemma first_value_replace:
  assumes "CHR ''='' \<notin> set name" and "v \<noteq> []"
  shows "first_value name (replace_cookie name v jar) = Some v"
proof (induction jar)
  case Nil
  with assms(2) show ?case by simp
next
  case (Cons c cs)
  show ?case
  proof (cases "cookie_name c = name")
    case True
    with assms(2) show ?thesis by simp
  next
    case False
    with assms(1) have "take (length name + 1) c \<noteq> name @ ''=''"
      using prefix_cookie_name by blast
    with False Cons show ?thesis
      by simp
  qed
qed

lemma plain_jar_replace:
  assumes "plain name" and "plain v" and "plain_jar jar"
  shows "plain_jar (replace_cookie name v jar)"
  using assms(3)
proof (induction jar)
  case Nil
  with assms show ?case by (simp add: plain_jar_def plain_def)
next
  case (Cons c cs)
  with assms show ?case by (simp add: plain_jar_def plain_def)
qed


lemma Cookie_get_after_set:
  assumes "plain name" and "CHR ''='' \<notin> set name" and "0 < days" and "plain_jar jar"
    and "plain (enc v)" and "enc v \<noteq> []" and "dec (enc v) = Some v"
  shows "Cookie_get dec (Cookie_set enc jar name v days) name = v"
proof -
  have "plain_jar (replace_cookie name (enc v) jar)"
    using assms(1,5,4) by (rule plain_jar_replace)
  then have "search name True (document_cookie (replace_cookie name (enc v) jar)) =
      first_value name (replace_cookie name (enc v) jar)"
    using search_plain [OF assms(1)] by blast
  also have "\<dots> = Some (enc v)"
    using assms(2,6) by (rule first_value_replace)
  finally show ?thesis
    using assms(3,7) by (simp add: Cookie_get_def Cookie_set_def)
qed

subsection \<open>Identifiers\<close>

lemma length_fill_template: "length (fill_template rnd k cs) = length cs"
  by (induction cs arbitrary: k) simp_all

lemma hex_digit_mod [simp]: "hex_digit (v mod 16) = hex_digit v"
  by (simp add: hex_digit_def)










subsection \<open>Loading or creating the session\<close>












text \<open>
  The case outside C7: a cookie \<open>wa_session\<close> that parses to a truthy
  non-object makes the strict-mode assignment \<open>session.isNew = false\<close>
  throw.
\<close>

lemma number_cookie_throws:
  "getOrCreateSession enc_ex dec_ex (configure None) jar_number_ex rnd k t0 t1 = Inl TypeError"
proof -
  have "search ''wa_session'' True (document_cookie jar_number_ex) = Some ''42''"
    by code_simp
  then show ?thesis
    by (simp add: getOrCreateSession_def Cookie_get_def dec_ex_def)
qed

section \<open>Properties of the capture layer\<close>

subsection \<open>Clicks\<close>

lemma length_trim_le: "length (trim s) \<le> length s"
proof -
  have "length (trim s) \<le> length (dropWhile js_whitespace s)"
    unfolding trim_def using length_dropWhile_le [of js_whitespace "rev (dropWhile js_whitespace s)"]
    by simp
  also have "\<dots> \<le> length s"
    by (rule length_dropWhile_le)
  finally show ?thesis .
qed

lemma take_trim_short: "length s \<le> n \<Longrightarrow> take n (trim s) = trim (take n s)"
  using length_trim_le [of s] by simp

lemma history_trackClick:
  "truthy (siteId (CONFIG st)) \<Longrightarrow>
   last_click_text (state_of (trackClick st e ev)) = Some (click_text (target ev))"
  by (simp add: last_click_text_def trackClick_def Let_def history_trackEvent newEvent_def)

text \<open>
  C9, as the code has it. The text of a click's element descriptor is the
  text content (the empty string when there is none) cut to its first 100
  code units and then stripped of leading and trailing white space: the cut
  comes first. It has at most 100 code units, and it agrees with stripping
  first and cutting afterwards whenever the text content has at most 100
  code units.
\<close>

theorem click_text_is_cut_then_trimmed:
  assumes "truthy (siteId (CONFIG st))"
  shows "last_click_text (state_of (trackClick st e ev)) =
           Some (trim (slice0 100 (case textContent (target ev) of Some s \<Rightarrow> s | None \<Rightarrow> []))) \<and>
         (case last_click_text (state_of (trackClick st e ev)) of
            None \<Rightarrow> False | Some txt \<Rightarrow> length txt \<le> 100) \<and>
         (length (case textContent (target ev) of Some s \<Rightarrow> s | None \<Rightarrow> []) \<le> 100 \<longrightarrow>
            last_click_text (state_of (trackClick st e ev)) =
              Some (text_trimmed_then_cut (target ev)))"
proof -
  let ?s = "case textContent (target ev) of Some s \<Rightarrow> s | None \<Rightarrow> []"
  have a: "last_click_text (state_of (trackClick st e ev)) = Some (trim (slice0 100 ?s))"
    using assms by (simp add: history_trackClick click_text_def)
  have "length (trim (slice0 100 ?s)) \<le> length (slice0 100 ?s)"
    by (rule length_trim_le)
  then have b: "length (trim (slice0 100 ?s)) \<le> 100"
    by (simp add: slice0_def)
  have c: "trim (slice0 100 ?s) = text_trimmed_then_cut (target ev)" if "length ?s \<le> 100"
    using that by (simp add: text_trimmed_then_cut_def slice0_def take_trim_short)
  from a b c show ?thesis
    by simp
qed

theorem click_text_is_cut_then_trimmed_witness:
  "truthy (siteId (CONFIG (queued_ex 0))) \<and>
   last_click_text (state_of (trackClick (queued_ex 0) env_ex click_ex)) =
     Some [0x42, 0x75, 0x79] \<and>
   text_trimmed_then_cut (target click_ex) = [0x42, 0x75, 0x79]"
proof -
  have h: "truthy (siteId (CONFIG (queued_ex 0)))"
    by (simp add: queued_ex_def)
  have l: "length (case textContent (target click_ex) of Some s \<Rightarrow> s | None \<Rightarrow> []) \<le> 100"
    by (simp add: click_ex_def element_ex_def)
  have v: "text_trimmed_then_cut (target click_ex) = [0x42, 0x75, 0x79]"
    by (simp add: text_trimmed_then_cut_def click_ex_def element_ex_def slice0_def trim_def
        js_whitespace_def)
  note t = click_text_is_cut_then_trimmed [OF h, of env_ex click_ex]
  from t l have "last_click_text (state_of (trackClick (queued_ex 0) env_ex click_ex)) =
      Some (text_trimmed_then_cut (target click_ex))"
    by blast
  with h v show ?thesis
    by simp
qed

text \<open>
  C9 as stated fails: for a text content of one space followed by a hundred
  letters, stripping first and cutting afterwards gives the hundred
  letters, while the queued click event carries ninety-nine.
\<close>

theorem click_text_trimmed_then_cut_counterexample:
  "truthy (siteId (CONFIG (queued_ex 0))) \<and>
   textContent (target click_padded_ex) = Some (0x20 # replicate 100 0x61) \<and>
   last_click_text (state_of (trackClick (queued_ex 0) env_ex click_padded_ex)) =
     Some (replicate 99 0x61) \<and>
   text_trimmed_then_cut (target click_padded_ex) = replicate 100 0x61 \<and>
   last_click_text (state_of (trackClick (queued_ex 0) env_ex click_padded_ex)) \<noteq>
     Some (text_trimmed_then_cut (target click_padded_ex))"
proof -
  have h: "truthy (siteId (CONFIG (queued_ex 0)))"
    by (simp add: queued_ex_def)
  have w: "js_whitespace 0x20" "\<not> js_whitespace 0x61"
    by (simp_all add: js_whitespace_def)
  have tc: "textContent (target click_padded_ex) = Some (0x20 # replicate 100 0x61)"
    by (simp add: click_padded_ex_def)
  have a: "click_text (target click_padded_ex) = replicate 99 0x61"
    using w by (simp add: click_text_def tc slice0_def trim_def)
  have b: "text_trimmed_then_cut (target click_padded_ex) = replicate 100 0x61"
    using w by (simp add: text_trimmed_then_cut_def tc slice0_def trim_def)
  have c: "last_click_text (state_of (trackClick (queued_ex 0) env_ex click_padded_ex)) =
      Some (replicate 99 0x61)"
    using h a by (simp add: history_trackClick)
  have d: "replicate 99 (0x61 :: 16 word) \<noteq> replicate 100 0x61"
    by (simp add: replicate_eq_replicate)
  from h tc a b c d show ?thesis
    by simp
qed

section \<open>Properties of initialisation\<close>

lemma history_update [simp]:
  "history (st\<lparr>lastMouseSample := a\<rparr>) = history st"
  "history (st\<lparr>lastScrollDepth := b\<rparr>) = history st"
  "history (st\<lparr>scrollTimeout := c\<rparr>) = history st"
  "history (st\<lparr>waInitialized := d\<rparr>) = history st"
  "history (st\<lparr>CONFIG := f\<rparr>) = history st"
  "history (st\<lparr>console := g\<rparr>) = history st"
  "history (st\<lparr>session := h\<rparr>) = history st"
  "history (st\<lparr>cookies := i\<rparr>) = history st"
  "history (st\<lparr>listeners := j\<rparr>) = history st"
  "history (st\<lparr>flushTimers := k\<rparr>) = history st"
  "history (st\<lparr>window_onerror := l\<rparr>) = history st"
  "history (st\<lparr>engagementTime := m\<rparr>) = history st"
  "history (st\<lparr>lastEngagementCheck := n\<rparr>) = history st"
  "history (st\<lparr>eventQueue := q\<rparr>) = history st"
  "history (st\<lparr>network := w\<rparr>) = history st"
  by (simp_all add: history_def)

lemma trackPageView_frame [simp]:
  "CONFIG (state_of (trackPageView st e)) = CONFIG st"
  "listeners (state_of (trackPageView st e)) = listeners st"
  "flushTimers (state_of (trackPageView st e)) = flushTimers st"
  "window_onerror (state_of (trackPageView st e)) = window_onerror st"
  "lastMouseSample (state_of (trackPageView st e)) = lastMouseSample st"
  "session (state_of (trackPageView st e)) = session st"
  "lastScrollDepth (state_of (trackPageView st e)) = lastScrollDepth st"
  "scrollTimeout (state_of (trackPageView st e)) = scrollTimeout st"
  "waInitialized (state_of (trackPageView st e)) = waInitialized st"
  "domReadyListener (state_of (trackPageView st e)) = domReadyListener st"
  "cookies (state_of (trackPageView st e)) = cookies st"
  by (simp_all add: trackPageView_def)

text \<open>
  \<open>init\<close> by cases: without a site id only the warning; when the page view
  makes the flush throw, nothing after it; otherwise the listeners, the
  error hook and one more flush timer.
\<close>

lemma init_cases:
  "init st e =
     (if \<not> truthy (siteId (CONFIG st))
      then Returned (st\<lparr>console := console st @ [Warn no_site_id_warning]\<rparr>)
      else if threw (trackPageView st e) then trackPageView st e
      else
        let st1 = state_of (trackPageView st e);
            l1 = add_listener H_click (listeners st1);
            l2 = (if trackMouseMovement (CONFIG st1) then add_listener H_mousemove l1 else l1);
            l3 = add_listener H_scroll l2;
            l4 = add_listener H_focus l3;
            l5 = add_listener H_blur l4;
            l6 = add_listener H_change l5;
            l7 = add_listener H_visibility l6;
            n = flushTimers st1;
            l8 = add_listener (H_beforeunload n) l7;
            l9 = add_listener (H_hidden_flush n) l8;
            st2 = st1\<lparr>listeners := l9, window_onerror := True, flushTimers := Suc n\<rparr>
        in if debug (CONFIG st2)
           then Returned (st2\<lparr>console := console st2 @ [Log ''[Analytics] Initialized'']\<rparr>)
           else Returned st2)"
  by (cases "trackPageView st e") (simp_all add: init_def)

lemma init_frame [simp]:
  "lastMouseSample (state_of (init st e)) = lastMouseSample st"
  "session (state_of (init st e)) = session st"
  "lastScrollDepth (state_of (init st e)) = lastScrollDepth st"
  "scrollTimeout (state_of (init st e)) = scrollTimeout st"
  "waInitialized (state_of (init st e)) = waInitialized st"
  "domReadyListener (state_of (init st e)) = domReadyListener st"
  "cookies (state_of (init st e)) = cookies st"
  by (simp_all add: init_cases Let_def)

lemma closures_add_named:
  "\<not> is_closure h \<Longrightarrow> filter is_closure (add_listener h hs) = filter is_closure hs"
  by (simp add: add_listener_def)

lemma is_closure_simps [simp]:
  "\<not> is_closure H_click" "\<not> is_closure H_mousemove" "\<not> is_closure H_scroll"
  "\<not> is_closure H_focus" "\<not> is_closure H_blur" "\<not> is_closure H_change"
  "\<not> is_closure H_visibility" "is_closure (H_beforeunload n)" "is_closure (H_hidden_flush n)"
  by (simp_all add: is_closure_def)

lemma set_add_listener: "set (add_listener h hs) = insert h (set hs)"
  by (auto simp: add_listener_def)

lemma closures_add_closure':
  "is_closure h \<Longrightarrow>
   filter is_closure (add_listener h hs) =
     filter is_closure hs @ (if h \<in> set hs then [] else [h])"
  by (simp add: add_listener_def)

lemma closure_mem: "is_closure h \<Longrightarrow> h \<in> set hs \<longleftrightarrow> h \<in> set (filter is_closure hs)"
  by simp

lemma init_flushTimers:
  "truthy (siteId (CONFIG st)) \<Longrightarrow> \<not> threw (trackPageView st e) \<Longrightarrow>
   flushTimers (state_of (init st e)) = Suc (flushTimers st)"
  by (simp add: init_cases Let_def)

lemma init_history:
  "truthy (siteId (CONFIG st)) \<Longrightarrow>
   history (state_of (init st e)) =
     history st @ [newEvent st e ''pageview''
       (PageViewData (isNew (session st)) (pageViews (session st)))]"
  using history_trackEvent [of st e "''pageview''"
      "PageViewData (isNew (session st)) (pageViews (session st))"]
  by (simp add: init_cases Let_def trackPageView_def)

lemma init_closures_raw:
  "truthy (siteId (CONFIG st)) \<Longrightarrow> \<not> threw (trackPageView st e) \<Longrightarrow>
   filter is_closure (listeners (state_of (init st e))) =
     filter is_closure (listeners st) @
       (if H_beforeunload (flushTimers st) \<in> set (listeners st) then []
        else [H_beforeunload (flushTimers st)]) @
       (if H_hidden_flush (flushTimers st) \<in> set (listeners st) then []
        else [H_hidden_flush (flushTimers st)])"
  by (simp add: init_cases Let_def closures_add_named closures_add_closure' set_add_listener)

lemma init_closures:
  "truthy (siteId (CONFIG st)) \<Longrightarrow> \<not> threw (trackPageView st e) \<Longrightarrow>
   filter is_closure (listeners (state_of (init st e))) =
     filter is_closure (listeners st) @
       (if H_beforeunload (flushTimers st) \<in> set (filter is_closure (listeners st)) then []
        else [H_beforeunload (flushTimers st)]) @
       (if H_hidden_flush (flushTimers st) \<in> set (filter is_closure (listeners st)) then []
        else [H_hidden_flush (flushTimers st)])"
  using closure_mem [of "H_beforeunload (flushTimers st)" "listeners st"]
    closure_mem [of "H_hidden_flush (flushTimers st)" "listeners st"]
  by (simp only: init_closures_raw is_closure_simps simp_thms)

text \<open>
  The two paths into \<open>init\<close>. \<open>setSiteId\<close> reads the flag
  \<open>window._waInitialized\<close> and sets it; the listener for \<open>DOMContentLoaded\<close>
  sets it without reading it.
\<close>

lemma setSiteId_first:
  assumes "truthy v" and "\<not> waInitialized st"
  shows "setSiteId st e v =
           init (st\<lparr>CONFIG := (CONFIG st)\<lparr>siteId := v\<rparr>, waInitialized := True\<rparr>) e"
  using assms by (simp add: setSiteId_def Let_def)

lemma setSiteId_when_initialized:
  "waInitialized st \<Longrightarrow> setSiteId st e v = Returned (st\<lparr>CONFIG := (CONFIG st)\<lparr>siteId := v\<rparr>\<rparr>)"
  by (simp add: setSiteId_def Let_def)

lemma domContentLoaded_ignores_flag:
  "truthy (siteId (CONFIG st)) \<Longrightarrow>
   domContentLoaded st e = init (st\<lparr>waInitialized := True\<rparr>) e"
  by (simp add: domContentLoaded_def)

lemma trackPageView_below_batch:
  assumes "truthy (siteId (CONFIG st))"
    and "int (length (eventQueue st)) + 1 < batchSize (CONFIG st)"
  shows "\<not> threw (trackPageView st e)"
    and "length (eventQueue (state_of (trackPageView st e))) = Suc (length (eventQueue st))"
  using assms by (simp_all add: trackPageView_def trackEvent_accepted Let_def)

lemma init_below_batch:
  assumes "truthy (siteId (CONFIG st))"
    and "int (length (eventQueue st)) + 1 < batchSize (CONFIG st)"
  shows "\<not> threw (init st e)"
    and "length (eventQueue (state_of (init st e))) = Suc (length (eventQueue st))"
    and "flushTimers (state_of (init st e)) = Suc (flushTimers st)"
  using trackPageView_below_batch [OF assms, of e] assms(1)
  by (simp_all add: init_cases Let_def)

text \<open>
  C8 fails on the code. The listener for \<open>DOMContentLoaded\<close> sets
  \<open>window._waInitialized\<close> but never reads it, so when the script is
  loaded while the document is still being parsed and the host page calls
  \<open>setSiteId\<close> before \<open>DOMContentLoaded\<close> fires, \<open>init\<close> runs once
  from \<open>setSiteId\<close> and once more from the listener: two page-view
  events, two flush timers, two pairs of unload and visibility closures.
\<close>

theorem init_runs_twice:
  "script_load enc_ex dec_ex None True [] (\<lambda>k. k) ck_ex env_ex = Inr (early_ex (\<lambda>k. k)) \<and>
   \<not> waInitialized (early_ex (\<lambda>k. k)) \<and>
   flushTimers (run (early_ex (\<lambda>k. k)) [Call_setSiteId env_ex (JStr ''T1'')]) = 1 \<and>
   waInitialized (run (early_ex (\<lambda>k. k)) [Call_setSiteId env_ex (JStr ''T1'')]) \<and>
   flushTimers (run (early_ex (\<lambda>k. k))
     [Call_setSiteId env_ex (JStr ''T1''), DOMContentLoaded env_ex]) = 2 \<and>
   map type' (history (run (early_ex (\<lambda>k. k))
     [Call_setSiteId env_ex (JStr ''T1''), DOMContentLoaded env_ex])) = [''pageview'', ''pageview''] \<and>
   filter is_closure (listeners (run (early_ex (\<lambda>k. k))
     [Call_setSiteId env_ex (JStr ''T1''), DOMContentLoaded env_ex])) =
     [H_beforeunload 0, H_hidden_flush 0, H_beforeunload 1, H_hidden_flush 1]"
proof -
  have a: "script_load enc_ex dec_ex None True [] (\<lambda>k. k) ck_ex env_ex = Inr (early_ex (\<lambda>k. k))"
    by code_simp
  have b: "\<not> waInitialized (early_ex (\<lambda>k. k))"
    by (simp add: early_ex_def)
  have c: "flushTimers (run (early_ex (\<lambda>k. k)) [Call_setSiteId env_ex (JStr ''T1'')]) = 1"
    "waInitialized (run (early_ex (\<lambda>k. k)) [Call_setSiteId env_ex (JStr ''T1'')])"
    by code_simp+
  have d: "flushTimers (run (early_ex (\<lambda>k. k))
      [Call_setSiteId env_ex (JStr ''T1''), DOMContentLoaded env_ex]) = 2"
    by code_simp
  have f: "map type' (history (run (early_ex (\<lambda>k. k))
      [Call_setSiteId env_ex (JStr ''T1''), DOMContentLoaded env_ex])) =
      [''pageview'', ''pageview'']"
    by code_simp
  have g: "filter is_closure (listeners (run (early_ex (\<lambda>k. k))
      [Call_setSiteId env_ex (JStr ''T1''), DOMContentLoaded env_ex])) =
      [H_beforeunload 0, H_hidden_flush 0, H_beforeunload 1, H_hidden_flush 1]"
    by code_simp
  from a b c d f g show ?thesis
    by blast
qed

section \<open>Properties of the rate-limited handlers\<close>

subsection \<open>Events by type tag\<close>

lemma tagged_update [simp]:
  "tagged T (st\<lparr>lastMouseSample := a\<rparr>) = tagged T st"
  "tagged T (st\<lparr>lastScrollDepth := b\<rparr>) = tagged T st"
  "tagged T (st\<lparr>scrollTimeout := c\<rparr>) = tagged T st"
  "tagged T (st\<lparr>waInitialized := d\<rparr>) = tagged T st"
  "tagged T (st\<lparr>CONFIG := f\<rparr>) = tagged T st"
  "tagged T (st\<lparr>session := h\<rparr>) = tagged T st"
  "tagged T (st\<lparr>cookies := i\<rparr>) = tagged T st"
  "tagged T (st\<lparr>engagementTime := m\<rparr>) = tagged T st"
  "tagged T (st\<lparr>lastEngagementCheck := n\<rparr>) = tagged T st"
  by (simp_all add: tagged_def)

lemma tagged_flush [simp]: "tagged T (state_of (flush st e)) = tagged T st"
  by (simp add: tagged_def)

lemma tagged_trackEvent:
  "tagged T (state_of (trackEvent st e ty d)) =
     tagged T st @ (if truthy (siteId (CONFIG st)) \<and> ty = T then [newEvent st e ty d] else [])"
  by (simp add: tagged_def history_trackEvent newEvent_def)

lemma tagged_init:
  "T \<noteq> ''pageview'' \<Longrightarrow> tagged T (state_of (init st e)) = tagged T st"
proof (cases "truthy (siteId (CONFIG st))")
  case True
  assume "T \<noteq> ''pageview''"
  with True show ?thesis
    by (auto simp: tagged_def init_history newEvent_def)
next
  case False
  then show ?thesis
    by (simp add: init_suppressed tagged_def)
qed

lemma tagged_report:
  "T \<noteq> ''error'' \<Longrightarrow> tagged T (report e r) = tagged T (state_of r)"
proof (cases r)
  case (Returned st)
  then show ?thesis by simp
next
  case (Threw err st)
  assume "T \<noteq> ''error''"
  with Threw show ?thesis
    by (cases "uncaught e") (auto simp: report_Threw trackError_def tagged_trackEvent)
qed

lemma unmoved_refl [simp]: "unmoved T st st"
  by (simp add: unmoved_def)

lemma unmoved_trans: "unmoved T a b \<Longrightarrow> unmoved T b c \<Longrightarrow> unmoved T a c"
  by (simp add: unmoved_def)

lemma unmoved_trackEvent: "ty \<noteq> T \<Longrightarrow> unmoved T st (state_of (trackEvent st e ty d))"
  by (simp add: unmoved_def tagged_trackEvent)

lemma unmoved_flush [simp]: "unmoved T st (state_of (flush st e))"
  by (simp add: unmoved_def)

lemma unmoved_init: "T \<noteq> ''pageview'' \<Longrightarrow> unmoved T st (state_of (init st e))"
  by (simp add: unmoved_def tagged_init)

lemma unmoved_reported:
  "T \<noteq> ''error'' \<Longrightarrow> unmoved T st (state_of r) \<Longrightarrow> unmoved T st (report e r)"
  by (simp add: unmoved_def tagged_report)

lemma unmoved_on_beforeunload:
  assumes "T \<noteq> ''page_exit''"
  shows "unmoved T st (state_of (on_beforeunload st now e))"
proof -
  let ?r = "trackEvent st e ''page_exit''
      (PageExitData (now - startTime (session st)) (engagementTime st) (lastScrollDepth st))"
  have a: "unmoved T st (state_of ?r)"
    using assms by (simp add: unmoved_trackEvent)
  show ?thesis
  proof (cases ?r)
    case (Returned st1)
    with a have "unmoved T st st1"
      by simp
    moreover have "unmoved T st1 (state_of (flush st1 e))"
      by simp
    ultimately have "unmoved T st (state_of (flush st1 e))"
      by (rule unmoved_trans)
    with Returned show ?thesis
      by (simp add: on_beforeunload_def)
  next
    case (Threw err st1)
    with a show ?thesis
      by (simp add: on_beforeunload_def)
  qed
qed

lemma unmoved_dispatch_visibilitychange:
  assumes "T \<noteq> ''visibility''" and "T \<noteq> ''error''"
  shows "unmoved T st (dispatch_visibilitychange hs st e)"
proof (induction hs st e rule: dispatch_visibilitychange.induct)
  case (2 hs st e)
  have "unmoved T st (report e (trackVisibility st e))"
    using assms by (simp add: unmoved_reported trackVisibility_def unmoved_trackEvent)
  with 2 show ?case
    by (auto intro: unmoved_trans)
next
  case (3 n hs st e)
  have "unmoved T st (report e (on_hidden_flush st e))"
    using assms by (simp add: unmoved_reported on_hidden_flush_def)
  with 3 show ?case
    by (auto intro: unmoved_trans)
qed simp_all

lemma unmoved_dispatch_beforeunload:
  assumes "T \<noteq> ''page_exit''" and "T \<noteq> ''error''"
  shows "unmoved T st (dispatch_beforeunload hs st now e)"
proof (induction hs st now e rule: dispatch_beforeunload.induct)
  case (2 n hs st now e)
  have "unmoved T st (report e (on_beforeunload st now e))"
    using assms by (simp add: unmoved_reported unmoved_on_beforeunload)
  with 2 show ?case
    by (auto intro: unmoved_trans)
qed simp_all

lemma unmoved_setSiteId:
  "T \<noteq> ''pageview'' \<Longrightarrow> unmoved T st (state_of (setSiteId st e v))"
proof -
  assume t: "T \<noteq> ''pageview''"
  let ?a = "st\<lparr>CONFIG := (CONFIG st)\<lparr>siteId := v\<rparr>\<rparr>"
  have a: "unmoved T st ?a"
    by (simp add: unmoved_def)
  have b: "unmoved T st (?a\<lparr>waInitialized := True\<rparr>)"
    by (simp add: unmoved_def)
  have c: "unmoved T (?a\<lparr>waInitialized := True\<rparr>)
      (state_of (init (?a\<lparr>waInitialized := True\<rparr>) e))"
    using t by (rule unmoved_init)
  from a b c show ?thesis
    by (auto simp: setSiteId_def Let_def intro: unmoved_trans)
qed

lemma unmoved_domContentLoaded:
  "T \<noteq> ''pageview'' \<Longrightarrow> unmoved T st (state_of (domContentLoaded st e))"
proof -
  assume t: "T \<noteq> ''pageview''"
  have b: "unmoved T st (st\<lparr>waInitialized := True\<rparr>)"
    by (simp add: unmoved_def)
  have c: "unmoved T (st\<lparr>waInitialized := True\<rparr>)
      (state_of (init (st\<lparr>waInitialized := True\<rparr>) e))"
    using t by (rule unmoved_init)
  from b c show ?thesis
    by (auto simp: domContentLoaded_def intro: unmoved_trans)
qed

lemma unmoved_identify:
  "T \<noteq> ''identify'' \<Longrightarrow> unmoved T st (state_of (identify enc st e uid tr))"
  by (simp add: identify_def Let_def unmoved_def tagged_trackEvent)

lemma unmoved_step:
  assumes "T = ''scroll'' \<or> T = ''mousemove''" and "\<not> is_rate_limited s"
  shows "unmoved T st (step st s)"
proof -
  from assms(1) have T: "T \<noteq> ''error''" "T \<noteq> ''pageview''" "T \<noteq> ''click''"
    "T \<noteq> ''form_interaction''" "T \<noteq> ''visibility''" "T \<noteq> ''page_exit''" "T \<noteq> ''identify''"
    by auto
  show ?thesis
  proof (cases s)
    case (DOMContentLoaded e)
    with T show ?thesis
      by (simp add: unmoved_reported unmoved_domContentLoaded)
  next
    case (Click e ev)
    have "unmoved T st (state_of (trackClick st e ev))"
      using T by (simp add: trackClick_def Let_def unmoved_trackEvent)
    with Click T show ?thesis
      by (simp add: unmoved_reported)
  next
    case (MouseMove now e ev)
    with assms show ?thesis by (simp add: is_rate_limited_def)
  next
    case Scroll
    then show ?thesis by (simp add: trackScroll_def unmoved_def)
  next
    case (ScrollTimer e m)
    with assms show ?thesis by (simp add: is_rate_limited_def)
  next
    case (Focus e t)
    have "unmoved T st (state_of (trackFormInteraction st e ''focus'' t))"
      using T by (simp add: trackFormInteraction_def unmoved_trackEvent)
    with Focus T show ?thesis
      by (simp add: unmoved_reported)
  next
    case (Blur e t)
    have "unmoved T st (state_of (trackFormInteraction st e ''blur'' t))"
      using T by (simp add: trackFormInteraction_def unmoved_trackEvent)
    with Blur T show ?thesis
      by (simp add: unmoved_reported)
  next
    case (Change e t)
    have "unmoved T st (state_of (trackFormInteraction st e ''change'' t))"
      using T by (simp add: trackFormInteraction_def unmoved_trackEvent)
    with Change T show ?thesis
      by (simp add: unmoved_reported)
  next
    case (VisibilityChange e)
    with T show ?thesis by (simp add: unmoved_dispatch_visibilitychange)
  next
    case (ErrorEvent e message source lineno colno stack)
    with T show ?thesis by (simp add: trackError_def unmoved_trackEvent)
  next
    case (BeforeUnload now e)
    with T show ?thesis by (simp add: unmoved_dispatch_beforeunload)
  next
    case (FlushTimer e)
    with T show ?thesis by (simp add: unmoved_reported)
  next
    case (EngagementTimer e t1 t2)
    then show ?thesis by (simp add: updateEngagement_def unmoved_def)
  next
    case (Call_track e eventName d)
    have "''custom:'' @ eventName \<noteq> T"
      using assms(1) by auto
    with Call_track show ?thesis
      by (simp add: track_def unmoved_trackEvent del: append.simps)
  next
    case (Call_identify enc e uid tr)
    with T show ?thesis by (simp add: unmoved_identify)
  next
    case (Call_flush e)
    then show ?thesis by simp
  next
    case (Call_setEndpoint u)
    then show ?thesis by (simp add: setEndpoint_def unmoved_def)
  next
    case (Call_setSiteId e v)
    with T show ?thesis by (simp add: unmoved_setSiteId)
  next
    case (Call_setDebug b)
    then show ?thesis by (simp add: setDebug_def unmoved_def)
  qed
qed

subsection \<open>Scroll depth\<close>

lemma scroll_depths_unmoved:
  "unmoved ''scroll'' st st' \<Longrightarrow>
   scroll_depths st' = scroll_depths st \<and> lastScrollDepth st' = lastScrollDepth st"
  by (simp add: unmoved_def scroll_depths_def)

lemma scroll_inv_unmoved: "unmoved ''scroll'' st st' \<Longrightarrow> scroll_inv st \<Longrightarrow> scroll_inv st'"
  by (simp add: scroll_inv_def scroll_depths_unmoved)

lemma scroll_depths_report [simp]:
  "scroll_depths (report e r) = scroll_depths (state_of r)"
  by (simp add: scroll_depths_def tagged_report)

lemma trackMouseMove_scroll:
  "scroll_depths (state_of (trackMouseMove st now e ev)) = scroll_depths st \<and>
   lastScrollDepth (state_of (trackMouseMove st now e ev)) = lastScrollDepth st"
  by (simp add: trackMouseMove_def scroll_depths_def tagged_trackEvent unmoved_def)

text \<open>
  The depth is computed in double arithmetic: at 145 of 1000 pixels the
  quotient times 100 is the double just below 14.5, and the depth is 14.
\<close>

lemma scrollDepth_of_double: "scrollDepth_of env_ex (metrics_ex 145) = 14"
  by code_simp

lemma scroll_settled_cases:
  "scroll_settled st e m =
     (if lastScrollDepth st + 10 < scrollDepth_of e m
      then trackEvent (st\<lparr>lastScrollDepth := scrollDepth_of e m\<rparr>) e ''scroll''
             (ScrollData (scrollDepth_of e m)
                (if pageYOffset m \<noteq> 0 then pageYOffset m else docEl_scrollTop m))
      else Returned st)"
  by (simp add: scroll_settled_def Let_def)

lemma scroll_settled_depths:
  "scroll_depths (state_of (scroll_settled st e m)) =
     scroll_depths st @
       (if lastScrollDepth st + 10 < scrollDepth_of e m \<and> truthy (siteId (CONFIG st))
        then [scrollDepth_of e m] else [])"
  by (simp add: scroll_settled_cases scroll_depths_def tagged_trackEvent newEvent_def depth_of_def)

lemma scroll_settled_last:
  "lastScrollDepth (state_of (scroll_settled st e m)) =
     (if lastScrollDepth st + 10 < scrollDepth_of e m then scrollDepth_of e m
      else lastScrollDepth st)"
  by (simp add: scroll_settled_cases)

lemma scroll_inv_settled:
  assumes "scroll_inv st"
  shows "scroll_inv (state_of (scroll_settled st e m))"
proof (cases "lastScrollDepth st + 10 < scrollDepth_of e m")
  case False
  with assms show ?thesis
    by (simp add: scroll_settled_cases)
next
  case True
  let ?d = "scrollDepth_of e m"
  have l: "lastScrollDepth (state_of (scroll_settled st e m)) = ?d"
    using True by (simp add: scroll_settled_last)
  show ?thesis
  proof (cases "truthy (siteId (CONFIG st))")
    case False
    then have "scroll_depths (state_of (scroll_settled st e m)) = scroll_depths st"
      by (simp add: scroll_settled_depths)
    with assms True l show ?thesis
      by (fastforce simp: scroll_inv_def)
  next
    case t: True
    then have d: "scroll_depths (state_of (scroll_settled st e m)) = scroll_depths st @ [?d]"
      using True by (simp add: scroll_settled_depths)
    have "scroll_depths st = [] \<or> last (scroll_depths st) + 10 < ?d"
    proof (cases "scroll_depths st = []")
      case False
      then have "last (scroll_depths st) \<in> set (scroll_depths st)"
        by simp
      with assms have "last (scroll_depths st) \<le> lastScrollDepth st"
        by (simp add: scroll_inv_def)
      with True show ?thesis
        by simp
    qed simp
    then have s: "successively (\<lambda>a b. a + 10 < b) (scroll_depths st @ [?d])"
      using assms by (auto simp: scroll_inv_def successively_append_iff)
    from assms True have "\<forall>x \<in> set (scroll_depths st @ [?d]). 10 < x \<and> x \<le> ?d"
      by (fastforce simp: scroll_inv_def)
    with s assms True show ?thesis
      unfolding scroll_inv_def d l by simp
  qed
qed

lemma scroll_inv_report: "scroll_inv (state_of r) \<Longrightarrow> scroll_inv (report e r)"
  by (simp add: scroll_inv_def)

lemma scroll_inv_step: "scroll_inv st \<Longrightarrow> scroll_inv (step st s)"
proof (cases "is_rate_limited s")
  case False
  assume "scroll_inv st"
  with False show ?thesis
    by (auto intro: scroll_inv_unmoved unmoved_step)
next
  case True
  assume i: "scroll_inv st"
  from True consider (mm) now e ev where "s = MouseMove now e ev"
    | (sc) e m where "s = ScrollTimer e m"
    by (cases s) (simp_all add: is_rate_limited_def)
  then show ?thesis
  proof cases
    case mm
    with i show ?thesis
      by (simp add: scroll_inv_def trackMouseMove_scroll)
  next
    case sc
    have "scroll_inv (st\<lparr>scrollTimeout := False\<rparr>)"
      using i by (simp add: scroll_inv_def scroll_depths_def)
    then have "scroll_inv (state_of (scroll_settled (st\<lparr>scrollTimeout := False\<rparr>) e m))"
      by (rule scroll_inv_settled)
    then have "scroll_inv (report e (scroll_settled (st\<lparr>scrollTimeout := False\<rparr>) e m))"
      by (rule scroll_inv_report)
    with sc i show ?thesis
      by simp
  qed
qed

lemma scroll_inv_run: "scroll_inv st \<Longrightarrow> scroll_inv (run st sigs)"
  unfolding run_def by (induction sigs arbitrary: st) (simp_all add: scroll_inv_step)

lemma lastScrollDepth_step_bound:
  assumes "lastScrollDepth st \<le> hi" and "signal_depth s \<le> hi"
  shows "lastScrollDepth (step st s) \<le> hi"
proof (cases "is_rate_limited s")
  case False
  then have "unmoved ''scroll'' st (step st s)"
    by (simp add: unmoved_step)
  with assms show ?thesis
    by (simp add: unmoved_def)
next
  case True
  then consider (mm) now e ev where "s = MouseMove now e ev"
    | (sc) e m where "s = ScrollTimer e m"
    by (cases s) (simp_all add: is_rate_limited_def)
  then show ?thesis
  proof cases
    case mm
    with assms show ?thesis
      by (simp add: trackMouseMove_scroll)
  next
    case sc
    with assms show ?thesis
      by (simp add: scroll_settled_last signal_depth_def)
  qed
qed

lemma lastScrollDepth_run_bound:
  "lastScrollDepth st \<le> hi \<Longrightarrow> \<forall>s \<in> set sigs. signal_depth s \<le> hi \<Longrightarrow>
   lastScrollDepth (run st sigs) \<le> hi"
  unfolding run_def
  by (induction sigs arbitrary: st) (simp_all add: lastScrollDepth_step_bound)

lemma gapped_length:
  "successively (\<lambda>a b. a + 10 < b) ds \<Longrightarrow> ds \<noteq> [] \<Longrightarrow>
   hd ds + 11 * (int (length ds) - 1) \<le> last (ds :: int list)"
proof (induction ds rule: induct_list012)
  case (3 x y zs)
  then show ?case by (auto simp: algebra_simps)
qed simp_all

lemma gapped_count:
  assumes "successively (\<lambda>a b. a + 10 < b) ds" and "\<forall>d \<in> set ds. 10 < d \<and> d \<le> (100::int)"
  shows "length ds \<le> 9"
proof (cases "ds = []")
  case False
  then have "hd ds \<in> set ds" "last ds \<in> set ds"
    by simp_all
  with assms have "10 < hd ds" "last ds \<le> 100"
    by auto
  with gapped_length [OF assms(1) False] show ?thesis
    by simp
qed simp

lemma gapped_sorted:
  "successively (\<lambda>a b. a + 10 < b) (ds :: int list) \<Longrightarrow> sorted_wrt (<) ds"
proof -
  assume "successively (\<lambda>a b. a + 10 < b) ds"
  then have "successively (<) ds"
    by (rule successively_mono) simp_all
  then show ?thesis
    by (simp add: successively_iff_sorted_wrt_strong)
qed

lemma configure_constants:
  "mouseSampleRate (configure tg) = 100" "batchSize (configure tg) = 10"
  by (simp_all add: configure_def CONFIG0_def Let_def split: option.splits)

lemma script_load_fresh:
  assumes "script_load enc dec tg loading jar rnd ck e0 = Inr st0"
  shows "lastScrollDepth st0 = 0" and "lastMouseSample st0 = 0"
    and "T \<noteq> ''pageview'' \<Longrightarrow> tagged T st0 = []"
    and "mouseSampleRate (CONFIG st0) = 100"
proof -
  from assms obtain s jar' where
    g: "getOrCreateSession enc dec (configure tg) jar rnd 0 (t_start ck) (t_act ck) = Inr (s, jar')"
    by (auto simp: script_load_def Let_def split: sum.splits)
  let ?st = "\<lparr> CONFIG = configure tg, eventQueue = [], lastMouseSample = 0, session = s,
       lastScrollDepth = 0, scrollTimeout = False, engagementTime = 0,
       lastEngagementCheck = t_eng ck, waInitialized = False,
       domReadyListener = False, listeners = [], window_onerror = False,
       flushTimers = 0, cookies = jar', console = [], network = [], pushed = [] \<rparr>"
  have c: "st0 = ?st\<lparr>domReadyListener := True\<rparr> \<or>
      st0 = state_of (init (?st\<lparr>waInitialized := True\<rparr>) e0) \<or> st0 = ?st"
    using assms g by (auto simp: script_load_def Let_def split: if_splits)
  have t: "tagged T ?st = []" "tagged T (?st\<lparr>domReadyListener := True\<rparr>) = []"
    "tagged T (?st\<lparr>waInitialized := True\<rparr>) = []" for T
    by (simp_all add: tagged_def history_def)
  from c show "lastScrollDepth st0 = 0"
    by auto
  from c show "lastMouseSample st0 = 0"
    by auto
  from c show "mouseSampleRate (CONFIG st0) = 100"
    by (auto simp: configure_constants)
  show "tagged T st0 = []" if n: "T \<noteq> ''pageview''"
  proof -
    have "tagged T (state_of (init (?st\<lparr>waInitialized := True\<rparr>) e0)) = []"
      using tagged_init [OF n, of "?st\<lparr>waInitialized := True\<rparr>" e0] t(3) [of T]
      by simp
    with c t(1,2) [of T] show ?thesis
      by blast
  qed
qed

text \<open>
  C4. On a page whose script has loaded, whatever signals arrive, in
  whatever order, the depths of the scroll events queued so far form a
  chain in which every depth exceeds the one before it by more than 10,
  so the chain is strictly increasing; the first exceeds 10. When no scroll
  position measured is beyond 100 percent, no depth is, and at most 9
  scroll events, hence at most 100 / 10, are ever queued.
\<close>

theorem scroll_events_sparse_and_increasing:
  assumes "script_load enc dec tg loading jar rnd ck e0 = Inr st0"
  shows "successively (\<lambda>a b. a + 10 < b) (scroll_depths (run st0 sigs)) \<and>
         sorted_wrt (<) (scroll_depths (run st0 sigs)) \<and>
         (\<forall>d \<in> set (scroll_depths (run st0 sigs)). 10 < d) \<and>
         ((\<forall>s \<in> set sigs. signal_depth s \<le> 100) \<longrightarrow>
            (\<forall>d \<in> set (scroll_depths (run st0 sigs)). d \<le> 100) \<and>
            length (scroll_depths (run st0 sigs)) \<le> 9 \<and>
            length (scroll_depths (run st0 sigs)) \<le> 100 div 10)"
proof -
  have "scroll_inv st0"
    using script_load_fresh [OF assms]
    by (simp add: scroll_inv_def scroll_depths_def)
  then have i: "scroll_inv (run st0 sigs)"
    by (rule scroll_inv_run)
  then have a: "successively (\<lambda>a b. a + 10 < b) (scroll_depths (run st0 sigs))"
    and b: "\<forall>d \<in> set (scroll_depths (run st0 sigs)). 10 < d"
    by (simp_all add: scroll_inv_def)
  from a have c: "sorted_wrt (<) (scroll_depths (run st0 sigs))"
    by (rule gapped_sorted)
  have d: "(\<forall>d \<in> set (scroll_depths (run st0 sigs)). d \<le> 100) \<and>
      length (scroll_depths (run st0 sigs)) \<le> 9"
    if h: "\<forall>s \<in> set sigs. signal_depth s \<le> 100"
  proof -
    have "lastScrollDepth st0 \<le> 100"
      using script_load_fresh(1) [OF assms] by simp
    then have "lastScrollDepth (run st0 sigs) \<le> 100"
      using h by (rule lastScrollDepth_run_bound)
    with i have e: "\<forall>d \<in> set (scroll_depths (run st0 sigs)). 10 < d \<and> d \<le> 100"
      by (fastforce simp: scroll_inv_def)
    with a have "length (scroll_depths (run st0 sigs)) \<le> 9"
      by (rule gapped_count)
    with e show ?thesis
      by simp
  qed
  from a b c d show ?thesis
    by auto
qed

theorem scroll_events_sparse_and_increasing_witness:
  "script_load enc_ex dec_ex (Some tag_ex) False [] (\<lambda>k. k) ck_ex env_ex = Inr loaded_ex \<and>
   map signal_depth scrolls_ex = [0, 25, 0, 30, 90, 0, 0, 60, 0, 0, 100] \<and>
   scroll_depths (run loaded_ex scrolls_ex) = [25, 60, 100] \<and>
   length (scroll_depths (run loaded_ex scrolls_ex)) \<le> 9"
proof -
  have h: "script_load enc_ex dec_ex (Some tag_ex) False [] (\<lambda>k. k) ck_ex env_ex =
      Inr loaded_ex"
    by code_simp
  have m: "map signal_depth scrolls_ex = [0, 25, 0, 30, 90, 0, 0, 60, 0, 0, 100]"
    by code_simp
  have "\<forall>d \<in> set (map signal_depth scrolls_ex). d \<le> 100"
    unfolding m by simp
  then have b: "\<forall>s \<in> set scrolls_ex. signal_depth s \<le> 100"
    by simp
  have v: "scroll_depths (run loaded_ex scrolls_ex) = [25, 60, 100]"
    by code_simp
  note t = scroll_events_sparse_and_increasing [OF h, of scrolls_ex]
  from t b have "length (scroll_depths (run loaded_ex scrolls_ex)) \<le> 9"
    by blast
  with h m v show ?thesis
    by blast
qed

subsection \<open>Mouse movement\<close>

lemma trackMouseMove_dropped:
  "now - lastMouseSample st < mouseSampleRate (CONFIG st) \<Longrightarrow>
   trackMouseMove st now e ev = Returned st"
  by (simp add: trackMouseMove_def)

lemma trackMouseMove_accepted:
  assumes "\<not> now - lastMouseSample st < mouseSampleRate (CONFIG st)"
  shows "lastMouseSample (state_of (trackMouseMove st now e ev)) = now"
    and "tagged ''mousemove'' (state_of (trackMouseMove st now e ev)) =
           tagged ''mousemove'' st @
             (if truthy (siteId (CONFIG st))
              then [newEvent (st\<lparr>lastMouseSample := now\<rparr>) e ''mousemove''
                      (MouseMoveData (event_position ev))]
              else [])"
  using assms by (simp_all add: trackMouseMove_def tagged_trackEvent)

lemma rate_step [simp]: "mouseSampleRate (CONFIG (step st s)) = mouseSampleRate (CONFIG st)"
proof (cases "is_rate_limited s")
  case False
  then have "unmoved ''scroll'' st (step st s)"
    by (simp add: unmoved_step)
  then show ?thesis
    by (simp add: unmoved_def)
next
  case True
  then consider (mm) now e ev where "s = MouseMove now e ev"
    | (sc) e m where "s = ScrollTimer e m"
    by (cases s) (simp_all add: is_rate_limited_def)
  then show ?thesis
  proof cases
    case mm
    then show ?thesis by (simp add: trackMouseMove_def)
  next
    case sc
    then show ?thesis by (simp add: scroll_settled_cases)
  qed
qed

lemma accepted_samples_Cons:
  "accepted_samples st (s # sigs) =
     (if is_accepted st s then move_times [s] else []) @ accepted_samples (step st s) sigs"
  by (cases s) (simp_all add: is_accepted_def move_times_def)

declare accepted_samples.simps(2) [simp del]

lemma step_not_accepted:
  assumes "\<not> is_accepted st s"
  shows "lastMouseSample (step st s) = lastMouseSample st"
    and "tagged ''mousemove'' (step st s) = tagged ''mousemove'' st"
proof -
  have "lastMouseSample (step st s) = lastMouseSample st \<and>
      tagged ''mousemove'' (step st s) = tagged ''mousemove'' st"
  proof (cases "is_rate_limited s")
    case False
    then have "unmoved ''mousemove'' st (step st s)"
      by (simp add: unmoved_step)
    then show ?thesis
      by (simp add: unmoved_def)
  next
    case True
    then consider (mm) now e ev where "s = MouseMove now e ev"
      | (sc) e m where "s = ScrollTimer e m"
      by (cases s) (simp_all add: is_rate_limited_def)
    then show ?thesis
    proof cases
      case mm
      with assms show ?thesis
        by (auto simp: is_accepted_def trackMouseMove_dropped)
    next
      case sc
      then show ?thesis
        by (simp add: scroll_settled_cases tagged_trackEvent tagged_report)
    qed
  qed
  then show "lastMouseSample (step st s) = lastMouseSample st"
    and "tagged ''mousemove'' (step st s) = tagged ''mousemove'' st"
    by simp_all
qed

lemma step_accepted:
  assumes "is_accepted st s"
  shows "\<exists>now. move_times [s] = [now] \<and> lastMouseSample (step st s) = now \<and>
           lastMouseSample st + mouseSampleRate (CONFIG st) \<le> now \<and>
           length (tagged ''mousemove'' (step st s)) \<le> Suc (length (tagged ''mousemove'' st))"
proof -
  from assms obtain now e ev where s: "s = MouseMove now e ev"
    by (cases s) (simp_all add: is_accepted_def)
  with assms have a: "H_mousemove \<in> set (listeners st)"
    "\<not> now - lastMouseSample st < mouseSampleRate (CONFIG st)"
    by (simp_all add: is_accepted_def)
  from s a show ?thesis
    by (simp add: move_times_def trackMouseMove_accepted tagged_report)
qed

lemma accepted_samples_spaced:
  "successively (\<lambda>a b. a + mouseSampleRate (CONFIG st) \<le> b) (accepted_samples st sigs) \<and>
   (accepted_samples st sigs \<noteq> [] \<longrightarrow>
      lastMouseSample st + mouseSampleRate (CONFIG st) \<le> hd (accepted_samples st sigs))"
proof (induction sigs arbitrary: st)
  case Nil
  then show ?case by simp
next
  case (Cons s sigs)
  let ?r = "mouseSampleRate (CONFIG st)"
  note ih = Cons.IH [of "step st s", unfolded rate_step]
  show ?case
  proof (cases "is_accepted st s")
    case False
    with ih show ?thesis
      by (simp add: accepted_samples_Cons step_not_accepted)
  next
    case True
    from step_accepted [OF True] obtain now where
      n: "move_times [s] = [now]" "lastMouseSample (step st s) = now"
        "lastMouseSample st + ?r \<le> now"
      by blast
    with True ih show ?thesis
      by (auto simp: accepted_samples_Cons successively_Cons)
  qed
qed

lemma accepted_samples_subset: "set (accepted_samples st sigs) \<subseteq> set (move_times sigs)"
proof (induction sigs arbitrary: st)
  case Nil
  then show ?case by simp
next
  case (Cons s sigs)
  have "move_times (s # sigs) = move_times [s] @ move_times sigs"
    by (simp add: move_times_def)
  with Cons [of "step st s"] show ?case
    by (auto simp: accepted_samples_Cons)
qed

lemma mousemove_count:
  "length (tagged ''mousemove'' (run st sigs)) \<le>
     length (tagged ''mousemove'' st) + length (accepted_samples st sigs)"
proof (induction sigs arbitrary: st)
  case Nil
  then show ?case by (simp add: run_def)
next
  case (Cons s sigs)
  have r: "run st (s # sigs) = run (step st s) sigs"
    by (simp add: run_def)
  show ?case
  proof (cases "is_accepted st s")
    case False
    with Cons [of "step st s"] show ?thesis
      by (simp add: r accepted_samples_Cons step_not_accepted)
  next
    case True
    from step_accepted [OF True] obtain now where
      "move_times [s] = [now]"
      "length (tagged ''mousemove'' (step st s)) \<le> Suc (length (tagged ''mousemove'' st))"
      by blast
    with True Cons [of "step st s"] show ?thesis
      by (simp add: r accepted_samples_Cons)
  qed
qed

lemma spaced_sorted:
  "0 \<le> r \<Longrightarrow> successively (\<lambda>a b. a + r \<le> b) (ts :: int list) \<Longrightarrow>
   sorted_wrt (\<lambda>a b. a + r \<le> b) ts"
proof (induction ts rule: induct_list012)
  case (3 x y zs)
  then have a: "x + r \<le> y" and b: "sorted_wrt (\<lambda>a b. a + r \<le> b) (y # zs)"
    by simp_all
  from b have "\<forall>z \<in> set zs. y + r \<le> z"
    by simp
  with a 3(3) have "\<forall>z \<in> set zs. x + r \<le> z"
    by fastforce
  with a b show ?case
    by simp
qed simp_all

lemma window_one:
  assumes "successively (\<lambda>a b. a + r \<le> b) (ts :: int list)"
    and "\<forall>a \<in> set ts. \<forall>b \<in> set ts. \<bar>a - b\<bar> < r"
  shows "length ts \<le> 1"
proof (rule ccontr)
  assume "\<not> length ts \<le> 1"
  then obtain x y zs where t: "ts = x # y # zs"
    by (cases ts; cases "tl ts") auto
  with assms(1) have "x + r \<le> y"
    by simp
  moreover from t assms(2) have "\<bar>x - y\<bar> < r"
    by simp
  ultimately show False
    by simp
qed

text \<open>
  C5. A mouse move whose clock reading is less than the sample interval
  after the last accepted sample is dropped: the handler returns the state
  unchanged. Otherwise the reading becomes the last accepted sample and one
  event is queued (none without a site id). Through any sequence of
  signals, each accepted sample is at least the interval after the one
  accepted before it, so (for a non-negative interval) any two accepted
  samples are at least the interval apart, and no more mousemove events are
  queued than samples are accepted. When all the mouse moves of the
  sequence have readings less than one interval apart from each other, at
  most one sample is accepted and at most one mousemove event is queued.
\<close>

theorem mouse_samples_throttled:
  "(now - lastMouseSample st < mouseSampleRate (CONFIG st) \<longrightarrow>
      trackMouseMove st now e ev = Returned st) \<and>
   (\<not> now - lastMouseSample st < mouseSampleRate (CONFIG st) \<longrightarrow>
      lastMouseSample (state_of (trackMouseMove st now e ev)) = now \<and>
      length (tagged ''mousemove'' (state_of (trackMouseMove st now e ev))) =
        length (tagged ''mousemove'' st) + (if truthy (siteId (CONFIG st)) then 1 else 0)) \<and>
   successively (\<lambda>a b. a + mouseSampleRate (CONFIG st) \<le> b) (accepted_samples st sigs) \<and>
   (0 \<le> mouseSampleRate (CONFIG st) \<longrightarrow>
      sorted_wrt (\<lambda>a b. a + mouseSampleRate (CONFIG st) \<le> b) (accepted_samples st sigs)) \<and>
   length (tagged ''mousemove'' (run st sigs)) \<le>
     length (tagged ''mousemove'' st) + length (accepted_samples st sigs) \<and>
   ((\<forall>a \<in> set (move_times sigs). \<forall>b \<in> set (move_times sigs).
        \<bar>a - b\<bar> < mouseSampleRate (CONFIG st)) \<longrightarrow>
      length (accepted_samples st sigs) \<le> 1 \<and>
      length (tagged ''mousemove'' (run st sigs)) \<le> length (tagged ''mousemove'' st) + 1)"
proof -
  let ?r = "mouseSampleRate (CONFIG st)"
  have a: "now - lastMouseSample st < ?r \<longrightarrow> trackMouseMove st now e ev = Returned st"
    by (simp add: trackMouseMove_dropped)
  have b: "\<not> now - lastMouseSample st < ?r \<longrightarrow>
      lastMouseSample (state_of (trackMouseMove st now e ev)) = now \<and>
      length (tagged ''mousemove'' (state_of (trackMouseMove st now e ev))) =
        length (tagged ''mousemove'' st) + (if truthy (siteId (CONFIG st)) then 1 else 0)"
    by (simp add: trackMouseMove_accepted)
  have c: "successively (\<lambda>a b. a + ?r \<le> b) (accepted_samples st sigs)"
    using accepted_samples_spaced [of st sigs] by simp
  have d: "0 \<le> ?r \<longrightarrow> sorted_wrt (\<lambda>a b. a + ?r \<le> b) (accepted_samples st sigs)"
    using c by (simp add: spaced_sorted)
  have f: "length (tagged ''mousemove'' (run st sigs)) \<le>
      length (tagged ''mousemove'' st) + length (accepted_samples st sigs)"
    by (rule mousemove_count)
  have g: "length (accepted_samples st sigs) \<le> 1"
    if w: "\<forall>a \<in> set (move_times sigs). \<forall>b \<in> set (move_times sigs). \<bar>a - b\<bar> < ?r"
  proof -
    from w accepted_samples_subset [of st sigs]
    have "\<forall>a \<in> set (accepted_samples st sigs). \<forall>b \<in> set (accepted_samples st sigs). \<bar>a - b\<bar> < ?r"
      by blast
    with c show ?thesis
      by (rule window_one)
  qed
  from a b c d f g show ?thesis
    by fastforce
qed

theorem mouse_samples_throttled_witness:
  "mouseSampleRate (CONFIG (queued_ex 0)) = 100 \<and> lastMouseSample (queued_ex 0) = 0 \<and>
   trackMouseMove (queued_ex 0) 50 env_ex click_ex = Returned (queued_ex 0) \<and>
   lastMouseSample (state_of (trackMouseMove (queued_ex 0) 1700000000000 env_ex click_ex)) =
     1700000000000 \<and>
   move_times moves_ex = [1700000000000, 1700000000050, 1700000000099] \<and>
   accepted_samples (queued_ex 0) moves_ex = [1700000000000] \<and>
   tagged ''mousemove'' (queued_ex 0) = [] \<and>
   length (tagged ''mousemove'' (run (queued_ex 0) moves_ex)) \<le> 1"
proof -
  have r: "mouseSampleRate (CONFIG (queued_ex 0)) = 100" "lastMouseSample (queued_ex 0) = 0"
    "tagged ''mousemove'' (queued_ex 0) = []"
    by (simp_all add: queued_ex_def idle_ex_def CONFIG0_def tagged_def history_def)
  have m: "move_times moves_ex = [1700000000000, 1700000000050, 1700000000099]"
    by code_simp
  have a: "accepted_samples (queued_ex 0) moves_ex = [1700000000000]"
    by code_simp
  have w: "\<forall>a \<in> set (move_times moves_ex). \<forall>b \<in> set (move_times moves_ex).
      \<bar>a - b\<bar> < mouseSampleRate (CONFIG (queued_ex 0))"
    unfolding m r by simp
  note t1 = mouse_samples_throttled [of 50 "queued_ex 0" env_ex click_ex moves_ex]
  note t2 = mouse_samples_throttled [of 1700000000000 "queued_ex 0" env_ex click_ex moves_ex]
  have d1: "50 - lastMouseSample (queued_ex 0) < mouseSampleRate (CONFIG (queued_ex 0))"
    unfolding r by simp
  have d2: "\<not> 1700000000000 - lastMouseSample (queued_ex 0) < mouseSampleRate (CONFIG (queued_ex 0))"
    unfolding r by simp
  from t1 d1 have c1: "trackMouseMove (queued_ex 0) 50 env_ex click_ex = Returned (queued_ex 0)"
    by blast
  from t2 d2 have c2:
    "lastMouseSample (state_of (trackMouseMove (queued_ex 0) 1700000000000 env_ex click_ex)) =
     1700000000000"
    by blast
  from t1 w have "length (tagged ''mousemove'' (run (queued_ex 0) moves_ex)) \<le>
      length (tagged ''mousemove'' (queued_ex 0)) + 1"
    by blast
  then have c3: "length (tagged ''mousemove'' (run (queued_ex 0) moves_ex)) \<le> 1"
    unfolding r by simp
  from r m a c1 c2 c3 show ?thesis
    by blast
qed

section \<open>The trace of queued events and what the script holds\<close>

lemma accounted_update [simp]:
  "accounted (st\<lparr>lastMouseSample := a\<rparr>) = accounted st"
  "accounted (st\<lparr>lastScrollDepth := b\<rparr>) = accounted st"
  "accounted (st\<lparr>scrollTimeout := c\<rparr>) = accounted st"
  "accounted (st\<lparr>waInitialized := d\<rparr>) = accounted st"
  "accounted (st\<lparr>CONFIG := f\<rparr>) = accounted st"
  "accounted (st\<lparr>console := g\<rparr>) = accounted st"
  "accounted (st\<lparr>session := h\<rparr>) = accounted st"
  "accounted (st\<lparr>cookies := i\<rparr>) = accounted st"
  "accounted (st\<lparr>listeners := j\<rparr>) = accounted st"
  "accounted (st\<lparr>flushTimers := k\<rparr>) = accounted st"
  "accounted (st\<lparr>window_onerror := l\<rparr>) = accounted st"
  "accounted (st\<lparr>engagementTime := m\<rparr>) = accounted st"
  "accounted (st\<lparr>lastEngagementCheck := n\<rparr>) = accounted st"
  by (simp_all add: accounted_def sent_events_def history_def)

lemma events_transmission: "events (batch_of (transmission_of st e q)) = q"
  by (simp add: transmission_of_def mk_batch_def)

lemma accounted_flush: "accounted st \<Longrightarrow> accounted (state_of (flush st e))"
proof -
  assume a: "accounted st"
  have "subseq (sent_events st) (sent_events st @ eventQueue st)"
    by (rule list_emb_prefix) simp
  moreover from a have "subseq (sent_events st @ eventQueue st) (history st)"
    by (simp add: accounted_def)
  ultimately have "subseq (sent_events st) (history st)"
    by (rule subseq_order.trans)
  with a show ?thesis
    by (simp add: flush_cases accounted_def history_def sent_events_def events_transmission)
qed

lemma accounted_trackEvent: "accounted st \<Longrightarrow> accounted (state_of (trackEvent st e ty d))"
proof (cases "truthy (siteId (CONFIG st))")
  case False
  assume "accounted st"
  with False show ?thesis
    by (simp add: trackEvent_suppressed)
next
  case True
  assume a: "accounted st"
  let ?ev = "newEvent st e ty d"
  let ?st2 = "st\<lparr>eventQueue := eventQueue st @ [?ev], pushed := pushed st @ [?ev]\<rparr>"
  let ?st3 = "if debug (CONFIG ?st2)
              then ?st2\<lparr>console := console ?st2 @ [Log (''[Analytics] '' @ ty)]\<rparr> else ?st2"
  from a have "subseq ((sent_events st @ eventQueue st) @ [?ev]) (history st @ [?ev])"
    unfolding accounted_def by (intro list_emb_append_mono) simp_all
  then have "accounted ?st2"
    by (simp add: accounted_def sent_events_def history_def)
  then have b: "accounted ?st3"
    by simp
  have "trackEvent st e ty d =
      (if int (length (eventQueue ?st3)) \<ge> batchSize (CONFIG ?st3)
       then flush ?st3 e else Returned ?st3)"
    using True by (simp add: trackEvent_def createEvent_def Let_def)
  with b accounted_flush [OF b, of e] show ?thesis
    by (simp split: if_splits)
qed

lemma accounted_report:
  assumes "accounted (state_of r)"
  shows "accounted (report e r)"
proof (cases r)
  case (Returned st)
  with assms show ?thesis by simp
next
  case (Threw err st)
  with assms show ?thesis
    by (cases "uncaught e") (simp add: report_Threw trackError_def accounted_trackEvent)
qed

lemma accounted_init: "accounted st \<Longrightarrow> accounted (state_of (init st e))"
proof -
  assume a: "accounted st"
  then have "accounted (state_of (trackPageView st e))"
    by (simp add: trackPageView_def accounted_trackEvent)
  with a show ?thesis
    by (simp add: init_cases Let_def)
qed

lemma accounted_on_beforeunload:
  assumes "accounted st"
  shows "accounted (state_of (on_beforeunload st now e))"
proof -
  let ?r = "trackEvent st e ''page_exit''
      (PageExitData (now - startTime (session st)) (engagementTime st) (lastScrollDepth st))"
  have a: "accounted (state_of ?r)"
    using assms by (rule accounted_trackEvent)
  show ?thesis
  proof (cases ?r)
    case (Returned st1)
    with a have "accounted (state_of (flush st1 e))"
      by (simp add: accounted_flush)
    with Returned show ?thesis
      by (simp add: on_beforeunload_def)
  next
    case (Threw err st1)
    with a show ?thesis
      by (simp add: on_beforeunload_def)
  qed
qed

lemma accounted_dispatch_visibilitychange:
  "accounted st \<Longrightarrow> accounted (dispatch_visibilitychange hs st e)"
proof (induction hs st e rule: dispatch_visibilitychange.induct)
  case (2 hs st e)
  then show ?case
    by (simp add: accounted_report trackVisibility_def accounted_trackEvent)
next
  case (3 n hs st e)
  then show ?case
    by (simp add: accounted_report on_hidden_flush_def accounted_flush)
qed simp_all

lemma accounted_dispatch_beforeunload:
  "accounted st \<Longrightarrow> accounted (dispatch_beforeunload hs st now e)"
proof (induction hs st now e rule: dispatch_beforeunload.induct)
  case (2 n hs st now e)
  then show ?case
    by (simp add: accounted_report accounted_on_beforeunload)
qed simp_all

lemma accounted_step: "accounted st \<Longrightarrow> accounted (step st s)"
proof (cases s)
  case (DOMContentLoaded e)
  assume "accounted st"
  with DOMContentLoaded show ?thesis
    by (simp add: accounted_report domContentLoaded_def accounted_init)
next
  case (Click e ev)
  assume "accounted st"
  with Click show ?thesis
    by (simp add: accounted_report trackClick_def Let_def accounted_trackEvent)
next
  case (MouseMove now e ev)
  assume "accounted st"
  with MouseMove show ?thesis
    by (simp add: accounted_report trackMouseMove_def accounted_trackEvent)
next
  case Scroll
  assume "accounted st"
  with Scroll show ?thesis
    by (simp add: trackScroll_def)
next
  case (ScrollTimer e m)
  assume "accounted st"
  with ScrollTimer show ?thesis
    by (simp add: accounted_report scroll_settled_def Let_def accounted_trackEvent)
next
  case (Focus e t)
  assume "accounted st"
  with Focus show ?thesis
    by (simp add: accounted_report trackFormInteraction_def accounted_trackEvent)
next
  case (Blur e t)
  assume "accounted st"
  with Blur show ?thesis
    by (simp add: accounted_report trackFormInteraction_def accounted_trackEvent)
next
  case (Change e t)
  assume "accounted st"
  with Change show ?thesis
    by (simp add: accounted_report trackFormInteraction_def accounted_trackEvent)
next
  case (VisibilityChange e)
  assume "accounted st"
  with VisibilityChange show ?thesis
    by (simp add: accounted_dispatch_visibilitychange)
next
  case (ErrorEvent e message source lineno colno stack)
  assume "accounted st"
  with ErrorEvent show ?thesis
    by (simp add: trackError_def accounted_trackEvent)
next
  case (BeforeUnload now e)
  assume "accounted st"
  with BeforeUnload show ?thesis
    by (simp add: accounted_dispatch_beforeunload)
next
  case (FlushTimer e)
  assume "accounted st"
  with FlushTimer show ?thesis
    by (simp add: accounted_report accounted_flush)
next
  case (EngagementTimer e t1 t2)
  assume "accounted st"
  with EngagementTimer show ?thesis
    by (simp add: updateEngagement_def Let_def)
next
  case (Call_track e eventName d)
  assume "accounted st"
  with Call_track show ?thesis
    by (simp add: track_def accounted_trackEvent del: append.simps)
next
  case (Call_identify enc e uid tr)
  assume "accounted st"
  with Call_identify show ?thesis
    by (simp add: identify_def Let_def accounted_trackEvent)
next
  case (Call_flush e)
  assume "accounted st"
  with Call_flush show ?thesis
    by (simp add: accounted_flush)
next
  case (Call_setEndpoint u)
  assume "accounted st"
  with Call_setEndpoint show ?thesis
    by (simp add: setEndpoint_def)
next
  case (Call_setSiteId e v)
  assume "accounted st"
  with Call_setSiteId show ?thesis
    by (simp add: setSiteId_def Let_def accounted_init)
next
  case (Call_setDebug b)
  assume "accounted st"
  with Call_setDebug show ?thesis
    by (simp add: setDebug_def)
qed

text \<open>
  From the moment the script has loaded, whatever happens: what was
  transmitted and what waits in the queue, in that order, is a subsequence
  of the trace of queued events.
\<close>

lemma accounted_run:
  assumes "script_load enc dec tg loading jar rnd ck e0 = Inr st0"
  shows "accounted (run st0 sigs)"
proof -
  from assms obtain s jar' where
    g: "getOrCreateSession enc dec (configure tg) jar rnd 0 (t_start ck) (t_act ck) = Inr (s, jar')"
    by (auto simp: script_load_def Let_def split: sum.splits)
  let ?st = "\<lparr> CONFIG = configure tg, eventQueue = [], lastMouseSample = 0, session = s,
       lastScrollDepth = 0, scrollTimeout = False, engagementTime = 0,
       lastEngagementCheck = t_eng ck, waInitialized = False,
       domReadyListener = False, listeners = [], window_onerror = False,
       flushTimers = 0, cookies = jar', console = [], network = [], pushed = [] \<rparr>"
  have c: "st0 = ?st\<lparr>domReadyListener := True\<rparr> \<or>
      st0 = state_of (init (?st\<lparr>waInitialized := True\<rparr>) e0) \<or> st0 = ?st"
    using assms g by (auto simp: script_load_def Let_def split: if_splits)
  have a: "accounted ?st"
    by (simp add: accounted_def sent_events_def history_def)
  then have "accounted (?st\<lparr>domReadyListener := True\<rparr>)"
    by (simp add: accounted_def sent_events_def history_def)
  moreover have "accounted (?st\<lparr>waInitialized := True\<rparr>)"
    by (simp add: accounted_def sent_events_def history_def)
  then have "accounted (state_of (init (?st\<lparr>waInitialized := True\<rparr>) e0))"
    by (rule accounted_init)
  ultimately have "accounted st0"
    using c a by blast
  then show ?thesis
    unfolding run_def by (induction sigs arbitrary: st0) (simp_all add: accounted_step)
qed

end
